theory Spec2Isabelle
  imports Main
begin

text \<open>
  The script engine of hof, \<open>script/script.go\<close>: the parser of script lines, the run loop
  with its condition guards, the environment, the HTTP sub-language with its registry of
  clients, the golden-file updates and the handling of background processes at the end of
  a run, as functions on an explicit script state.
\<close>

section \<open>Go strings and the library functions the script engine uses\<close>

text \<open>
  A Go string is a sequence of bytes, here a \<open>char list\<close>. The functions below are the
  parts of package \<open>strings\<close> that \<open>script/script.go\<close> calls. Case mapping and white
  space are the ASCII ones (the byte-wise fast paths of the Go library).
\<close>

abbreviation nl :: char where "nl \<equiv> CHR 0x0A"
abbreviation sq :: char where "sq \<equiv> CHR 0x27"

definition HasPrefix :: "string \<Rightarrow> string \<Rightarrow> bool" where
  "HasPrefix s p = (take (length p) s = p)"

definition HasSuffix :: "string \<Rightarrow> string \<Rightarrow> bool" where
  "HasSuffix s p = (length p \<le> length s \<and> drop (length s - length p) s = p)"

fun Contains :: "string \<Rightarrow> string \<Rightarrow> bool" where
  "Contains [] sub = (sub = [])"
| "Contains (c # cs) sub = (HasPrefix (c # cs) sub \<or> Contains cs sub)"

text \<open>\<open>s[lo:hi]\<close>; every call site below has \<open>lo \<le> hi \<le> len(s)\<close>.\<close>

definition slice :: "string \<Rightarrow> nat \<Rightarrow> nat \<Rightarrow> string" where
  "slice s lo hi = take (hi - lo) (drop lo s)"

fun Index :: "string \<Rightarrow> char \<Rightarrow> nat option" where
  "Index [] c = None"
| "Index (x # xs) c = (if x = c then Some 0 else map_option Suc (Index xs c))"

fun Split :: "string \<Rightarrow> char \<Rightarrow> string list" where
  "Split [] c = [[]]"
| "Split (x # xs) c =
     (if x = c then [] # Split xs c
      else (case Split xs c of [] \<Rightarrow> [[x]] | w # ws \<Rightarrow> (x # w) # ws))"

definition ToUpper_char :: "char \<Rightarrow> char" where
  "ToUpper_char c =
     (case map_of (zip ''abcdefghijklmnopqrstuvwxyz'' ''ABCDEFGHIJKLMNOPQRSTUVWXYZ'') c of
        Some u \<Rightarrow> u | None \<Rightarrow> c)"

definition ToUpper :: "string \<Rightarrow> string" where
  "ToUpper s = map ToUpper_char s"

definition isSpace :: "char \<Rightarrow> bool" where
  "isSpace c = (c \<in> set [CHR '' '', CHR 0x09, CHR 0x0A, CHR 0x0B, CHR 0x0C, CHR 0x0D])"

definition TrimSpace :: "string \<Rightarrow> string" where
  "TrimSpace s = rev (dropWhile isSpace (rev (dropWhile isSpace s)))"

fun fields_acc :: "string \<Rightarrow> string \<Rightarrow> string list" where
  "fields_acc cur [] = (if cur = [] then [] else [cur])"
| "fields_acc cur (c # cs) =
     (if isSpace c then (if cur = [] then fields_acc [] cs else cur # fields_acc [] cs)
      else fields_acc (cur @ [c]) cs)"

definition Fields :: "string \<Rightarrow> string list" where
  "Fields s = fields_acc [] s"

fun join_sp :: "string list \<Rightarrow> string" where
  "join_sp [] = []"
| "join_sp [x] = x"
| "join_sp (x # y # ys) = x @ '' '' @ join_sp (y # ys)"

text \<open>The verb \<open>%v\<close> applied to a slice of errors: the messages in brackets.\<close>

definition fmt_errs :: "string list \<Rightarrow> string" where
  "fmt_errs errs = ''['' @ join_sp errs @ '']''"


section \<open>Data model\<close>

text \<open>
  Leaving the test goroutine: \<open>ts.Fatalf\<close> (which ends in \<open>t.FailNow()\<close>) is a test
  failure, a Go panic is not. Both unwind the stack, so every function that can reach one
  returns \<open>Abort\<close> instead of a value. The string is the message (for \<open>Fatalf\<close>, the
  text written after \<open>FAIL: file:line:\<close>).
\<close>

datatype abort = FailNow string | Panic string

datatype 'a ret = Abort abort | Return 'a

text \<open>
  A \<open>gorequest.SuperAgent\<close>: the two fields the engine assigns, and the builder calls
  made on the agent so far, in order (the library keeps their effect in private fields).
  \<open>SetHeader\<close> is the method \<open>Set\<close>.
\<close>

datatype agent_call =
    Query string
  | Retry int int "int list"
  | Send string
  | SendFile string string string
  | SetBasicAuth string string
  | SetHeader string string

record SuperAgent =
  Url :: string
  Method :: string
  calls :: "agent_call list"

record Response =
  StatusCode :: int

record backgroundCmd =
  cmd :: nat
  neg :: int

record txtar_File =
  Name :: string
  Data :: string

record Archive =
  Comment :: string
  Files :: "txtar_File list"

text \<open>What the engine does to operating-system processes, in order.\<close>

datatype os_event = Interrupt nat | Await nat

text \<open>
  The \<open>Script\<close> struct. Agents live in \<open>heap\<close> and \<open>httpClients\<close> holds their addresses,
  as the Go map holds pointers; \<open>brk\<close> is the next unused address. \<open>disk\<close> is the file
  system and \<open>signals\<close> the trace of process operations. \<open>scriptUpdates\<close> lists the entries
  of the Go map in the order \<open>range\<close> visits them. The transcript (\<open>log\<close>, \<open>mark\<close>,
  \<open>start\<close>) is written but never read by the control flow modelled here and is left
  out, as are \<open>t\<close>, \<open>ctxt\<close>, \<open>values\<close>, \<open>deferred\<close> and the directory names. The
  field \<open>file\<close> is \<open>script_file\<close> here, and \<open>params\<close> is an argument of the functions
  that read it.
\<close>

record Script =
  cd :: string
  script_file :: string
  lineno :: nat
  line :: string
  env :: "string list"
  envMap :: "string \<rightharpoonup> string"
  stdin :: string
  stdout :: string
  stderr :: string
  status :: int
  stopped :: bool
  background :: "backgroundCmd list"
  archive :: Archive
  scriptUpdates :: "(string \<times> string) list"
  httpClients :: "string \<rightharpoonup> nat"
  heap :: "nat \<rightharpoonup> SuperAgent"
  brk :: nat
  disk :: "string \<rightharpoonup> string"
  signals :: "os_event list"

text \<open>
  Everything the engine asks of its host: the platform, the Go library functions whose
  result the engine only passes on, and the packages of this repository that are not part
  of \<open>script.go\<close> (\<open>envvarname\<close>, \<open>txtar\<close>, \<open>imports\<close>, \<open>testenv\<close>, \<open>execpath\<close>).
  \<open>execCache_Do\<close> is what the process-wide cache answers for a program name,
  \<open>strconv_Quote\<close> the verb \<open>%q\<close>, \<open>req_End\<close> the call \<open>req.End()\<close> with the agent as
  it leaves it, and \<open>WriteFile_error\<close> the error of writing a file, if any. The theorems
  hold for every host.
\<close>

record host =
  GOOS :: string
  GOARCH :: string
  testing_Short :: bool
  HasExternalNetwork :: bool
  HasLink :: bool
  HasSymlink :: bool
  KnownArch :: "string \<Rightarrow> bool"
  KnownOS :: "string \<Rightarrow> bool"
  execCache_Do :: "string \<Rightarrow> bool"
  envvarname :: "string \<Rightarrow> string"
  os_Expand :: "string \<Rightarrow> (string \<Rightarrow> string) \<Rightarrow> string"
  regexp_QuoteMeta :: "string \<Rightarrow> string"
  filepath_IsAbs :: "string \<Rightarrow> bool"
  filepath_Join :: "string \<Rightarrow> string \<Rightarrow> string"
  strconv_Atoi :: "string \<Rightarrow> string + int"
  time_ParseDuration :: "string \<Rightarrow> string + int"
  strconv_Quote :: "string \<Rightarrow> string"
  txtar_NeedsQuote :: "string \<Rightarrow> bool"
  txtar_Quote :: "string \<Rightarrow> string + string"
  txtar_Format :: "Archive \<Rightarrow> string"
  WriteFile_error :: "string \<Rightarrow> string option"
  req_End :: "SuperAgent \<Rightarrow> (Response option \<times> string \<times> string list) \<times> SuperAgent"
  ProcessState_Success :: "nat \<Rightarrow> bool"


section \<open>Helpers for command implementations\<close>

definition MkAbs :: "host \<Rightarrow> Script \<Rightarrow> string \<Rightarrow> string" where
  "MkAbs h ts f = (if filepath_IsAbs h f then f else filepath_Join h (cd ts) f)"

text \<open>A read fails (and \<open>ts.Check\<close> ends the test) where the file is not on the disk.\<close>

definition ReadFile :: "host \<Rightarrow> Script \<Rightarrow> string \<Rightarrow> string ret" where
  "ReadFile h ts f =
     (if f = ''stdout'' then Return (stdout ts)
      else if f = ''stderr'' then Return (stderr ts)
      else (case disk ts (MkAbs h ts f) of
              None \<Rightarrow> Abort (FailNow (''open '' @ MkAbs h ts f @ '': no such file or directory''))
            | Some d \<Rightarrow> Return d))"


section \<open>The HTTP sub-engine\<close>

definition HTTP2_GOAWAY_CHECK :: string where
  "HTTP2_GOAWAY_CHECK = ''http2: server sent GOAWAY and closed the connection''"

text \<open>
  A method call or field assignment through the pointer \<open>req\<close>; the builder methods of
  gorequest return their receiver.
\<close>

definition on_agent ::
  "Script \<Rightarrow> nat \<Rightarrow> (SuperAgent \<Rightarrow> SuperAgent) \<Rightarrow> (string + nat) ret \<times> Script" where
  "on_agent ts req f =
     (case heap ts req of
        None \<Rightarrow> (Abort (Panic ''invalid memory address or nil pointer dereference''), ts)
      | Some a \<Rightarrow> (Return (Inr req), ts\<lparr>heap := (heap ts)(req \<mapsto> f a)\<rparr>))"

definition record_call :: "agent_call \<Rightarrow> SuperAgent \<Rightarrow> SuperAgent" where
  "record_call c a = a\<lparr>calls := calls a @ [c]\<rparr>"

fun atoi_all :: "(string \<Rightarrow> string + int) \<Rightarrow> string list \<Rightarrow> string + int list" where
  "atoi_all f [] = Inr []"
| "atoi_all f (c # cs) =
     (case f c of Inl e \<Rightarrow> Inl e
      | Inr i \<Rightarrow> (case atoi_all f cs of Inl e \<Rightarrow> Inl e | Inr is \<Rightarrow> Inr (i # is)))"

definition applyArgToReq ::
  "host \<Rightarrow> Script \<Rightarrow> nat \<Rightarrow> string \<Rightarrow> (string + nat) ret \<times> Script" where
  "applyArgToReq h ts req arg =
     (let (key, val) = (case Index arg CHR ''='' of
                          None \<Rightarrow> (arg, [])
                        | Some i \<Rightarrow> (take i arg, drop (Suc i) arg));
          K = ToUpper key
      in
      if K = ''U'' \<or> K = ''URL'' then on_agent ts req (\<lambda>a. a\<lparr>Url := val\<rparr>)
      else if K = ''T'' \<or> K = ''TYPE'' then on_agent ts req (\<lambda>a. a\<lparr>Url := val\<rparr>)
      else if K = ''Q'' \<or> K = ''QUERY'' then
        (if HasPrefix val ''@'' then
           (case ReadFile h ts (drop 1 val) of
              Abort x \<Rightarrow> (Abort x, ts)
            | Return v \<Rightarrow> on_agent ts req (record_call (Query v)))
         else on_agent ts req (record_call (Query val)))
      else if K = ''R'' \<or> K = ''RETRY'' then
        (let flds = Fields val in
         if length flds < 3 then
           (Abort (FailNow (''http retry usage: RETRY:'' @ [sq] @ ''<count> <timer> [codes...]''
                           @ [sq])), ts)
         else
           (case strconv_Atoi h (flds ! 0) of
              Inl e \<Rightarrow> (Abort (FailNow e), ts)
            | Inr c \<Rightarrow>
               (case time_ParseDuration h (flds ! 1) of
                  Inl e \<Rightarrow> (Abort (FailNow e), ts)
                | Inr t \<Rightarrow>
                   (case atoi_all (strconv_Atoi h) (drop 2 flds) of
                      Inl e \<Rightarrow> (Abort (FailNow e), ts)
                    | Inr cs \<Rightarrow> on_agent ts req (record_call (Retry c t cs))))))
      else if K = ''D'' \<or> K = ''DATA'' \<or> K = ''S'' \<or> K = ''SEND'' then
        (if HasPrefix val ''@'' then
           (case ReadFile h ts (drop 1 val) of
              Abort x \<Rightarrow> (Abort x, ts)
            | Return v \<Rightarrow> on_agent ts req (record_call (Send v)))
         else on_agent ts req (record_call (Send val)))
      else if K = ''F'' \<or> K = ''FILE'' then
        (case Split val CHR '':'' of
           [] \<Rightarrow> (Abort (Panic ''index out of range''), ts)
         | f0 # fs \<Rightarrow>
            (let filename = TrimSpace f0;
                 fieldname = (case fs of [] \<Rightarrow> [] | f1 # _ \<Rightarrow> TrimSpace f1)
             in case ReadFile h ts filename of
                  Abort x \<Rightarrow> (Abort x, ts)
                | Return content \<Rightarrow> on_agent ts req (record_call (SendFile content filename fieldname))))
      else if K = ''A'' \<or> K = ''AUTH'' then
        (case Split val CHR '':'' of
           f0 # f1 # _ \<Rightarrow> on_agent ts req (record_call (SetBasicAuth (TrimSpace f0) (TrimSpace f1)))
         | _ \<Rightarrow> (Abort (Panic ''index out of range''), ts))
      else if K = ''H'' \<or> K = ''HEADER'' then
        (case Split val CHR '':'' of
           f0 # f1 # _ \<Rightarrow> on_agent ts req (record_call (SetHeader (TrimSpace f0) (TrimSpace f1)))
         | _ \<Rightarrow> (Abort (Panic ''index out of range''), ts))
      else if K = ''M'' \<or> K = ''METHOD'' then on_agent ts req (\<lambda>a. a\<lparr>Method := K\<rparr>)
      else if K = ''GET'' \<or> K = ''POST'' \<or> K = ''HEAD'' \<or> K = ''PUT'' \<or> K = ''DELETE''
              \<or> K = ''PATCH'' \<or> K = ''OPTIONS'' then
        on_agent ts req (\<lambda>a. a\<lparr>Method := K\<rparr>)
      else if HasPrefix key ''http'' then on_agent ts req (\<lambda>a. a\<lparr>Url := key\<rparr>)
      else (Return (Inl (''unknown http arg/key: '' @ strconv_Quote h arg @ '' / ''
                          @ strconv_Quote h key)), ts))"

fun applyArgsToReq ::
  "host \<Rightarrow> Script \<Rightarrow> nat \<Rightarrow> string list \<Rightarrow> (string + nat) ret \<times> Script" where
  "applyArgsToReq h ts req [] = (Return (Inr req), ts)"
| "applyArgsToReq h ts req (arg # args) =
     (case applyArgToReq h ts req arg of
        (Return (Inr req'), ts') \<Rightarrow> applyArgsToReq h ts' req' args
      | other \<Rightarrow> other)"

text \<open>\<open>gorequest.New()\<close> and \<open>Clone()\<close> allocate a new agent.\<close>

definition alloc :: "Script \<Rightarrow> SuperAgent \<Rightarrow> nat \<times> Script" where
  "alloc ts a = (brk ts, ts\<lparr>heap := (heap ts)(brk ts \<mapsto> a), brk := Suc (brk ts)\<rparr>)"

definition gorequest_New :: SuperAgent where
  "gorequest_New = \<lparr>Url = [], Method = [], calls = []\<rparr>"

definition applyDefaultsToReq :: "Script \<Rightarrow> nat \<Rightarrow> (string + nat) ret \<times> Script" where
  "applyDefaultsToReq ts req = on_agent ts req (\<lambda>a. a\<lparr>Method := ''GET''\<rparr>)"

definition newReqFromArgs ::
  "host \<Rightarrow> Script \<Rightarrow> string list \<Rightarrow> (string + nat) ret \<times> Script" where
  "newReqFromArgs h ts args =
     (let (req, ts1) = alloc ts gorequest_New in
      case applyDefaultsToReq ts1 req of
        (Return (Inr req'), ts2) \<Rightarrow> applyArgsToReq h ts2 req' args
      | other \<Rightarrow> other)"

definition reqFromArgs ::
  "host \<Rightarrow> Script \<Rightarrow> string list \<Rightarrow> (string + nat) ret \<times> Script" where
  "reqFromArgs h ts args =
     (case args of
        [] \<Rightarrow> (Abort (Panic ''index out of range''), ts)
      | a0 # rest \<Rightarrow>
         (case httpClients ts a0 of
            Some req \<Rightarrow>
              (case heap ts req of
                 None \<Rightarrow> (Abort (Panic ''invalid memory address or nil pointer dereference''), ts)
               | Some tmpl \<Rightarrow> (let (R, ts1) = alloc ts tmpl in applyArgsToReq h ts1 R rest))
          | None \<Rightarrow> newReqFromArgs h ts args))"

definition manageHttpClient :: "host \<Rightarrow> Script \<Rightarrow> string list \<Rightarrow> unit ret \<times> Script" where
  "manageHttpClient h ts args =
     (case args of
        [] \<Rightarrow> (Abort (FailNow ''usage: http client [new,del] <name> http-args...''), ts)
      | key # named \<Rightarrow>
         (let (name, args') = (case named of [] \<Rightarrow> (''default'', []) | n # ns \<Rightarrow> (n, ns)) in
          if key = ''new'' then
            (case newReqFromArgs h ts args' of
               (Abort x, ts') \<Rightarrow> (Abort x, ts')
             | (Return (Inl e), ts') \<Rightarrow> (Abort (FailNow e), ts')
             | (Return (Inr req), ts') \<Rightarrow>
                 (Return (), ts'\<lparr>httpClients := (httpClients ts')(name \<mapsto> req)\<rparr>))
          else if key = ''mod'' then
            (case httpClients ts name of
               None \<Rightarrow> (Abort (FailNow (''unknown http client '' @ strconv_Quote h name)), ts)
             | Some req \<Rightarrow>
                (case applyArgsToReq h ts req args' of
                   (Abort x, ts') \<Rightarrow> (Abort x, ts')
                 | (Return (Inl e), ts') \<Rightarrow> (Abort (FailNow e), ts')
                 | (Return (Inr req'), ts') \<Rightarrow>
                     (Return (), ts'\<lparr>httpClients := (httpClients ts')(name \<mapsto> req')\<rparr>)))
          else if key = ''del'' then
            (case httpClients ts name of
               None \<Rightarrow> (Abort (FailNow (''unknown http client '' @ strconv_Quote h name)), ts)
             | Some _ \<Rightarrow> (Return (), ts\<lparr>httpClients := (httpClients ts)(name := None)\<rparr>))
          else (Abort (FailNow ''usage: http client <op> args...''), ts)))"

text \<open>
  The classification at the end of \<open>http\<close>, after \<open>body += "\n"\<close>. The results are
  \<open>(stdout, stderr, status, err)\<close>; \<open>resp\<close> is a pointer and every branch reads
  \<open>resp.StatusCode\<close>. (gorequest returns a nil response whenever it returns errors.)
\<close>

definition http_classify ::
  "Response option \<Rightarrow> string \<Rightarrow> string list \<Rightarrow> (string \<times> string \<times> int \<times> string option) ret" where
  "http_classify resp body errs =
     (case resp of
        None \<Rightarrow> Abort (Panic ''invalid memory address or nil pointer dereference'')
      | Some r \<Rightarrow>
         (if errs \<noteq> [] \<and> \<not> Contains (hd errs) HTTP2_GOAWAY_CHECK then
            Return ([], body, StatusCode r,
                    Some (''Internal Weirdr Error:'' @ [CHR 0x08] @ fmt_errs errs @ [nl] @ body @ [nl]))
          else if errs \<noteq> [] then
            Return ([], body, StatusCode r,
                    Some (''Internal Error:'' @ [nl] @ fmt_errs errs @ [nl] @ body @ [nl]))
          else if StatusCode r \<ge> 500 then
            Return ([], body, StatusCode r,
                    Some (''Internal Error:'' @ [nl] @ fmt_errs errs @ [nl] @ body @ [nl]))
          else if StatusCode r \<ge> 400 then
            Return ([], body, StatusCode r, Some (''Bad Request:'' @ [nl] @ body @ [nl]))
          else Return (body, [], StatusCode r, None)))"

definition http ::
  "host \<Rightarrow> Script \<Rightarrow> string list \<Rightarrow> (string \<times> string \<times> int \<times> string option) ret \<times> Script" where
  "http h ts args =
     (case args of
        [] \<Rightarrow> (Abort (Panic ''index out of range''), ts)
      | a0 # rest \<Rightarrow>
         if a0 = ''client'' then
           (case manageHttpClient h ts rest of
              (Abort x, ts') \<Rightarrow> (Abort x, ts')
            | (Return _, ts') \<Rightarrow> (Return ([], [], 0, None), ts'))
         else
           (case reqFromArgs h ts args of
              (Abort x, ts') \<Rightarrow> (Abort x, ts')
            | (Return (Inl e), ts') \<Rightarrow> (Abort (FailNow e), ts')
            | (Return (Inr req), ts') \<Rightarrow>
               (case heap ts' req of
                  None \<Rightarrow> (Abort (Panic ''invalid memory address or nil pointer dereference''), ts')
                | Some a \<Rightarrow>
                   (let ((resp, body, errs), a') = req_End h a;
                        ts'' = ts'\<lparr>heap := (heap ts')(req \<mapsto> a')\<rparr>
                    in (http_classify resp (body @ [nl]) errs, ts'')))))"


section \<open>The environment\<close>

definition Getenv :: "host \<Rightarrow> Script \<Rightarrow> string \<Rightarrow> string" where
  "Getenv h ts key = (case envMap ts (envvarname h key) of None \<Rightarrow> [] | Some v \<Rightarrow> v)"

definition Setenv :: "host \<Rightarrow> Script \<Rightarrow> string \<Rightarrow> string \<Rightarrow> Script" where
  "Setenv h ts key val =
     ts\<lparr>env := env ts @ [key @ ''='' @ val],
        envMap := (envMap ts)(envvarname h key \<mapsto> val)\<rparr>"

text \<open>
  The methods of \<open>Env\<close>, the view of the environment that the setup hook gets.
  \<open>Env_Getenv\<close> walks the list from its end.
\<close>

fun Env_Getenv_from :: "host \<Rightarrow> string list \<Rightarrow> string \<Rightarrow> string" where
  "Env_Getenv_from h [] key = []"
| "Env_Getenv_from h (kv # older) key =
     (case Index kv CHR ''='' of
        Some i \<Rightarrow> if envvarname h (take i kv) = key then drop (Suc i) kv
                  else Env_Getenv_from h older key
      | None \<Rightarrow> Env_Getenv_from h older key)"

definition Env_Getenv :: "host \<Rightarrow> string list \<Rightarrow> string \<Rightarrow> string" where
  "Env_Getenv h vars key = Env_Getenv_from h (rev vars) (envvarname h key)"

definition Env_Setenv :: "host \<Rightarrow> string list \<Rightarrow> string \<Rightarrow> string \<Rightarrow> string list ret" where
  "Env_Setenv h vars key val =
     (if key = [] \<or> Index key CHR ''='' \<noteq> None
      then Abort (Panic (''invalid environment variable key '' @ strconv_Quote h key))
      else Return (vars @ [key @ ''='' @ val]))"

text \<open>
  The end of \<open>setup\<close> (after the setup hook has returned): the hook's \<open>Cd\<close> and \<open>Vars\<close>
  are folded back into the script and the lookup map is built from the list.
\<close>

definition setup_envMap :: "host \<Rightarrow> string list \<Rightarrow> (string \<rightharpoonup> string)" where
  "setup_envMap h vars =
     foldl (\<lambda>m kv. case Index kv CHR ''='' of
                      Some i \<Rightarrow> m(envvarname h (take i kv) \<mapsto> drop (Suc i) kv)
                    | None \<Rightarrow> m)
           Map.empty vars"

definition setup_env :: "host \<Rightarrow> Script \<Rightarrow> string \<Rightarrow> string list \<Rightarrow> Script" where
  "setup_env h ts dir vars = ts\<lparr>cd := dir, env := vars, envMap := setup_envMap h vars\<rparr>"

text \<open>
  The sentence of the specification, as a function of its own: the value of a key is the
  one of the last entry of the list that is written to that (normalised) key.
\<close>

fun replay_env :: "host \<Rightarrow> string list \<Rightarrow> (string \<rightharpoonup> string)" where
  "replay_env h [] k = None"
| "replay_env h (kv # later) k =
     (case replay_env h later k of
        Some v \<Rightarrow> Some v
      | None \<Rightarrow> (case Index kv CHR ''='' of
                   Some i \<Rightarrow> if envvarname h (take i kv) = k then Some (drop (Suc i) kv) else None
                 | None \<Rightarrow> None))"

definition env_matches :: "host \<Rightarrow> Script \<Rightarrow> bool" where
  "env_matches h ts = (envMap ts = replay_env h (env ts))"


section \<open>The parser\<close>

definition TrimSuffix :: "string \<Rightarrow> string \<Rightarrow> string" where
  "TrimSuffix s suf = (if HasSuffix s suf then take (length s - length suf) s else s)"

definition expand :: "host \<Rightarrow> Script \<Rightarrow> string \<Rightarrow> string" where
  "expand h ts s =
     os_Expand h s
       (\<lambda>key. let key1 = TrimSuffix key ''@R'' in
               if length key1 \<noteq> length key then regexp_QuoteMeta h (Getenv h ts key1)
               else Getenv h ts key)"

text \<open>
  The loop of \<open>parse\<close>. \<open>E\<close> is \<open>ts.expand\<close>; \<open>start\<close> is \<open>None\<close> where the Go variable
  is \<open>-1\<close>.
\<close>

function parse_loop ::
  "(string \<Rightarrow> string) \<Rightarrow> string \<Rightarrow> nat \<Rightarrow> string list \<Rightarrow> string \<Rightarrow> nat option \<Rightarrow> bool
     \<Rightarrow> string list ret" where
  "parse_loop E ln i args arg start quoted =
     (if \<not> quoted \<and> (i \<ge> length ln \<or> ln ! i = CHR '' '' \<or> ln ! i = CHR 0x09
                     \<or> ln ! i = CHR 0x0D \<or> ln ! i = CHR ''#'') then
        (let args' = (case start of Some s \<Rightarrow> args @ [arg @ E (slice ln s i)] | None \<Rightarrow> args);
             arg' = (case start of Some s \<Rightarrow> [] | None \<Rightarrow> arg)
         in if i \<ge> length ln \<or> ln ! i = CHR ''#'' then Return args'
            else parse_loop E ln (Suc i) args' arg' None False)
      else if i \<ge> length ln then Abort (FailNow ''unterminated quoted argument'')
      else if ln ! i = sq then
        (if \<not> quoted then
           parse_loop E ln (Suc i) args
             (case start of Some s \<Rightarrow> arg @ E (slice ln s i) | None \<Rightarrow> arg) (Some (Suc i)) True
         else
           (case start of
              None \<Rightarrow> Abort (Panic ''slice bounds out of range'')
            | Some s \<Rightarrow>
               if Suc i < length ln \<and> ln ! Suc i = sq then
                 parse_loop E ln (Suc (Suc i)) args (arg @ slice ln s i) (Some (Suc i)) True
               else parse_loop E ln (Suc i) args (arg @ slice ln s i) (Some (Suc i)) False))
      else parse_loop E ln (Suc i) args arg
             (case start of None \<Rightarrow> Some i | Some s \<Rightarrow> Some s) quoted)"
  by pat_completeness auto
termination
  by (relation "measure (\<lambda>(E, ln, i, args, arg, start, quoted). length ln - i)") auto

declare parse_loop.simps [simp del]

definition parse :: "host \<Rightarrow> Script \<Rightarrow> string \<Rightarrow> string list ret \<times> Script" where
  "parse h ts ln =
     (let ts' = ts\<lparr>line := ln\<rparr> in (parse_loop (expand h ts') ln 0 [] [] None False, ts'))"

text \<open>
  What the specification calls an unterminated quoted span, read off the text alone: a
  quote opens or closes a span, and a \<open>#\<close> outside a span ends the line.
\<close>

fun unterminated_from :: "bool \<Rightarrow> string \<Rightarrow> bool" where
  "unterminated_from q [] = q"
| "unterminated_from q (c # cs) =
     (if c = sq then unterminated_from (\<not> q) cs
      else if \<not> q \<and> c = CHR ''#'' then False
      else unterminated_from q cs)"

definition unterminated :: "string \<Rightarrow> bool" where
  "unterminated ln = unterminated_from False ln"




section \<open>Conditions and the run loop\<close>

record params =
  PhasePrefix :: string
  CommentPrefix :: string
  Condition :: "(string \<Rightarrow> bool \<times> string option) option"
  Cmds :: "string \<rightharpoonup> (Script \<Rightarrow> int \<Rightarrow> string list \<Rightarrow> unit ret \<times> Script)"

definition paramDefaults :: "params \<Rightarrow> params" where
  "paramDefaults p =
     p\<lparr>PhasePrefix := (if PhasePrefix p = [] then ''#'' else PhasePrefix p),
       CommentPrefix := (if CommentPrefix p = [] then ''~'' else CommentPrefix p)\<rparr>"

definition condition :: "host \<Rightarrow> params \<Rightarrow> string \<Rightarrow> (bool \<times> string option) ret" where
  "condition h p cond =
     (if cond = ''short'' then Return (testing_Short h, None)
      else if cond = ''net'' then Return (HasExternalNetwork h, None)
      else if cond = ''link'' then Return (HasLink h, None)
      else if cond = ''symlink'' then Return (HasSymlink h, None)
      else if cond = GOOS h \<or> cond = GOARCH h then Return (True, None)
      else if KnownArch h cond \<or> KnownOS h cond then Return (False, None)
      else if HasPrefix cond ''exec:'' then Return (execCache_Do h (drop 5 cond), None)
      else (case Condition p of
              Some f \<Rightarrow> Return (f cond)
            | None \<Rightarrow> Abort (FailNow (''unknown condition '' @ strconv_Quote h cond))))"

text \<open>
  The three steps of \<open>run\<close> on the arguments of a line: the loop over the \<open>[cond]\<close>
  prefixes (\<open>Return None\<close> is \<open>continue Script\<close>), the \<open>!\<close> and \<open>?\<close> prefixes, and the
  command itself. \<open>sc\<close> is the table \<open>scriptCmds\<close> of builtin commands.
\<close>

definition is_guard :: "string \<Rightarrow> bool" where
  "is_guard a = (HasPrefix a ''['' \<and> HasSuffix a '']'')"

definition guard_cond :: "string \<Rightarrow> string" where
  "guard_cond a =
     (let cond = TrimSpace (slice a 1 (length a - 1)) in
      if HasPrefix cond ''!'' then TrimSpace (drop 1 cond) else cond)"

definition guard_want :: "string \<Rightarrow> bool" where
  "guard_want a = (\<not> HasPrefix (TrimSpace (slice a 1 (length a - 1))) ''!'')"

fun run_conds :: "host \<Rightarrow> params \<Rightarrow> string list \<Rightarrow> string list option ret" where
  "run_conds h p [] = Abort (Panic ''index out of range'')"
| "run_conds h p (a # args) =
     (if is_guard a then
        (if args = [] then Abort (FailNow ''missing command after condition'')
         else
           (case condition h p (guard_cond a) of
              Abort x \<Rightarrow> Abort x
            | Return (ok, Some err) \<Rightarrow>
                Abort (FailNow (''bad condition '' @ strconv_Quote h (guard_cond a) @ '': '' @ err))
            | Return (ok, None) \<Rightarrow>
                if ok \<noteq> guard_want a then Return None else run_conds h p args))
      else Return (Some (a # args)))"

definition run_neg :: "string list \<Rightarrow> (int \<times> string list) ret" where
  "run_neg args =
     (case args of
        [] \<Rightarrow> Abort (Panic ''index out of range'')
      | a # rest \<Rightarrow>
         if a = ''!'' then
           (if rest = [] then Abort (FailNow ''! on line by itself'') else Return (1, rest))
         else if a = ''?'' then
           (if rest = [] then Abort (FailNow ''? on line by itself'') else Return (- 1, rest))
         else Return (0, args))"

type_synonym cmds = "string \<rightharpoonup> (Script \<Rightarrow> int \<Rightarrow> string list \<Rightarrow> unit ret \<times> Script)"

definition run_cmd ::
  "host \<Rightarrow> params \<Rightarrow> cmds \<Rightarrow> Script \<Rightarrow> int \<Rightarrow> string list \<Rightarrow> unit ret \<times> Script" where
  "run_cmd h p sc ts n args =
     (case args of
        [] \<Rightarrow> (Abort (Panic ''index out of range''), ts)
      | verb # rest \<Rightarrow>
         (case (case sc verb of Some c \<Rightarrow> Some c | None \<Rightarrow> Cmds p verb) of
            None \<Rightarrow> (Abort (FailNow (''unknown command '' @ strconv_Quote h verb)), ts)
          | Some c \<Rightarrow> c ts n rest))"

datatype flow = Next | Break

text \<open>One turn of the loop \<open>Script:\<close>, for the line \<open>ln\<close> (already counted in \<open>lineno\<close>).\<close>

definition run_line ::
  "host \<Rightarrow> params \<Rightarrow> cmds \<Rightarrow> Script \<Rightarrow> string \<Rightarrow> flow ret \<times> Script" where
  "run_line h p sc ts ln =
     (if HasPrefix ln (PhasePrefix p) then (Return Next, ts)
      else if HasPrefix ln (CommentPrefix p) then (Return Next, ts)
      else
        (case parse h ts ln of
           (Abort x, ts1) \<Rightarrow> (Abort x, ts1)
         | (Return args, ts1) \<Rightarrow>
            if args = [] then (Return Next, ts1)
            else
              (case run_conds h p args of
                 Abort x \<Rightarrow> (Abort x, ts1)
               | Return None \<Rightarrow> (Return Next, ts1)
               | Return (Some args1) \<Rightarrow>
                  (case run_neg args1 of
                     Abort x \<Rightarrow> (Abort x, ts1)
                   | Return (n, args2) \<Rightarrow>
                      (case run_cmd h p sc ts1 n args2 of
                         (Abort x, ts2) \<Rightarrow> (Abort x, ts2)
                       | (Return _, ts2) \<Rightarrow>
                           (Return (if stopped ts2 then Break else Next), ts2))))))"

text \<open>
  \<open>line, script = script[:i], script[i+1:]\<close> at the first newline, or the whole text
  where there is none.
\<close>

definition next_line :: "string \<Rightarrow> string \<times> string" where
  "next_line script =
     (let ln = takeWhile (\<lambda>c. c \<noteq> nl) script in (ln, drop (Suc (length ln)) script))"

function run_loop :: "host \<Rightarrow> params \<Rightarrow> cmds \<Rightarrow> string \<Rightarrow> Script \<Rightarrow> unit ret \<times> Script" where
  "run_loop h p sc script ts =
     (if script = [] then (Return (), ts)
      else
        (case run_line h p sc (ts\<lparr>lineno := Suc (lineno ts)\<rparr>) (fst (next_line script)) of
           (Abort x, ts') \<Rightarrow> (Abort x, ts')
         | (Return Break, ts') \<Rightarrow> (Return (), ts')
         | (Return Next, ts') \<Rightarrow> run_loop h p sc (snd (next_line script)) ts'))"
  by pat_completeness auto
termination
  by (relation "measure (\<lambda>(h, p, sc, script, ts). length script)")
     (auto simp: next_line_def Let_def)

declare run_loop.simps [simp del]


section \<open>Golden-file updates\<close>

text \<open>
  The inner loop of \<open>applyScriptUpdates\<close> for one recorded pair: the files of the archive
  as the loop leaves them, and \<open>found\<close>. \<open>ts.t.Fatal\<close> leaves the files already
  visited changed.
\<close>

definition quoted_data :: "host \<Rightarrow> string \<Rightarrow> string + string" where
  "quoted_data h content =
     (if txtar_NeedsQuote h content then txtar_Quote h content else Inr content)"

fun update_files ::
  "host \<Rightarrow> string \<Rightarrow> string \<Rightarrow> txtar_File list \<Rightarrow> bool \<Rightarrow> bool ret \<times> txtar_File list" where
  "update_files h name content [] found = (Return found, [])"
| "update_files h name content (f # fs) found =
     (if Name f \<noteq> name then
        (let (r, fs') = update_files h name content fs found in (r, f # fs'))
      else
        (case quoted_data h content of
           Inl err \<Rightarrow>
             (Abort (FailNow (''cannot update script file '' @ strconv_Quote h (Name f)
                              @ '': '' @ err)), f # fs)
         | Inr data \<Rightarrow>
             (let (r, fs') = update_files h name content fs True
              in (r, f\<lparr>Data := data\<rparr> # fs'))))"

fun apply_updates ::
  "host \<Rightarrow> (string \<times> string) list \<Rightarrow> txtar_File list \<Rightarrow> unit ret \<times> txtar_File list" where
  "apply_updates h [] fs = (Return (), fs)"
| "apply_updates h ((name, content) # ups) fs =
     (case update_files h name content fs False of
        (Abort x, fs') \<Rightarrow> (Abort x, fs')
      | (Return found, fs') \<Rightarrow>
          if \<not> found then (Abort (Panic ''script update file not found''), fs')
          else apply_updates h ups fs')"

text \<open>A write that fails is taken to leave the file as it was.\<close>

definition applyScriptUpdates :: "host \<Rightarrow> Script \<Rightarrow> unit ret \<times> Script" where
  "applyScriptUpdates h ts =
     (if scriptUpdates ts = [] then (Return (), ts)
      else
        (case apply_updates h (scriptUpdates ts) (Files (archive ts)) of
           (Abort x, fs') \<Rightarrow> (Abort x, ts\<lparr>archive := (archive ts)\<lparr>Files := fs'\<rparr>\<rparr>)
         | (Return _, fs') \<Rightarrow>
            (let ts1 = ts\<lparr>archive := (archive ts)\<lparr>Files := fs'\<rparr>\<rparr> in
             case WriteFile_error h (script_file ts1) of
               Some err \<Rightarrow> (Abort (FailNow (''cannot update script: '' @ err)), ts1)
             | None \<Rightarrow>
                 (Return (),
                  ts1\<lparr>disk := (disk ts1)(script_file ts1 \<mapsto> txtar_Format h (archive ts1))\<rparr>))))"


section \<open>Background processes and the end of a run\<close>

definition interrupt_all :: "Script \<Rightarrow> Script" where
  "interrupt_all ts = ts\<lparr>signals := signals ts @ map (\<lambda>bg. Interrupt (cmd bg)) (background ts)\<rparr>"

definition await_all :: "Script \<Rightarrow> Script" where
  "await_all ts = ts\<lparr>signals := signals ts @ map (\<lambda>bg. Await (cmd bg)) (background ts)\<rparr>"

text \<open>
  Modelled from the spec: the wait command \<open>cmdWait\<close>, which \<open>run\<close> calls and which is
  defined outside \<open>script.go\<close>. The specification says: "An explicit wait command drains
  the active list: any process whose actual success/failure disagrees with its recorded
  expectation is a command failure; regardless of outcome every entry is removed from the
  active list afterward." The expectation is the \<open>neg\<close> of the launching line: \<open>1\<close> must
  fail, \<open>0\<close> must succeed, \<open>-1\<close> may do either.
\<close>

definition disagrees :: "host \<Rightarrow> backgroundCmd \<Rightarrow> bool" where
  "disagrees h bg = (if ProcessState_Success h (cmd bg) then neg bg > 0 else neg bg = 0)"

definition cmdWait :: "host \<Rightarrow> Script \<Rightarrow> int \<Rightarrow> string list \<Rightarrow> unit ret \<times> Script" where
  "cmdWait h ts n args =
     (let ts' = (await_all ts)\<lparr>background := []\<rparr> in
      if list_ex (disagrees h) (background ts)
      then (Abort (FailNow ''unexpected command outcome''), ts')
      else (Return (), ts'))"

text \<open>The statements of \<open>run\<close> after the loop, up to \<open>PASS\<close>.\<close>

definition run_end :: "host \<Rightarrow> Script \<Rightarrow> unit ret \<times> Script" where
  "run_end h ts = cmdWait h (interrupt_all ts) 0 []"

text \<open>The first deferred function of \<open>run\<close>, which runs last.\<close>

definition run_teardown :: "Script \<Rightarrow> Script" where
  "run_teardown ts = (await_all (interrupt_all ts))\<lparr>background := []\<rparr>"

text \<open>
  \<open>run\<close>, from the point where \<open>setup\<close> has returned the script text. The deferred
  functions run whatever the outcome of the body, in the reverse order of their \<open>defer\<close>
  statements: \<open>applyScriptUpdates\<close>, then the chain \<open>ts.deferred\<close> of cleanups that
  commands have registered (the parameter \<open>deferred\<close>), then the teardown.
  \<open>run_stages\<close> is everything before the teardown and keeps the outcome of each stage;
  the teardown has no outcome of its own.
\<close>

definition run_stages ::
  "host \<Rightarrow> params \<Rightarrow> cmds \<Rightarrow> (Script \<Rightarrow> unit ret \<times> Script) \<Rightarrow> string \<Rightarrow> Script
     \<Rightarrow> (unit ret \<times> unit ret \<times> unit ret) \<times> Script" where
  "run_stages h p sc deferred script ts =
     (let (r1, ts1) = (case run_loop h p sc script ts of
                         (Abort x, t) \<Rightarrow> (Abort x, t)
                       | (Return _, t) \<Rightarrow> run_end h t);
          (r2, ts2) = applyScriptUpdates h ts1;
          (r3, ts3) = deferred ts2
      in ((r1, r2, r3), ts3))"

definition run ::
  "host \<Rightarrow> params \<Rightarrow> cmds \<Rightarrow> (Script \<Rightarrow> unit ret \<times> Script) \<Rightarrow> string \<Rightarrow> Script
     \<Rightarrow> (unit ret \<times> unit ret \<times> unit ret) \<times> Script" where
  "run h p sc deferred script ts =
     (let (r, ts3) = run_stages h p sc deferred script ts in (r, run_teardown ts3))"


section \<open>A host, a configuration and a script state for the examples\<close>

text \<open>
  A Linux host in short mode whose \<open>os.Expand\<close> replaces \<open>$NAME\<close> by the value of
  \<open>NAME\<close>, whose archive format wants content that starts with a file marker quoted, and
  which quotes only content that ends in a newline.
\<close>

fun expand_name :: "(string \<Rightarrow> string) \<Rightarrow> string option \<Rightarrow> string \<Rightarrow> string" where
  "expand_name m None [] = []"
| "expand_name m (Some n) [] = (if n = [] then ''$'' else m n)"
| "expand_name m None (c # cs) =
     (if c = CHR ''$'' then expand_name m (Some []) cs else c # expand_name m None cs)"
| "expand_name m (Some n) (c # cs) =
     (if c \<in> set ''abcdefghijklmnopqrstuvwxyzABCDEFGHIJKLMNOPQRSTUVWXYZ0123456789_''
      then expand_name m (Some (n @ [c])) cs
      else (if n = [] then ''$'' else m n) @
           (if c = CHR ''$'' then expand_name m (Some []) cs else c # expand_name m None cs))"

definition host0 :: host where
  "host0 = \<lparr>GOOS = ''linux'', GOARCH = ''amd64'', testing_Short = True,
     HasExternalNetwork = False, HasLink = True, HasSymlink = True,
     KnownArch = (\<lambda>s. s \<in> set [''amd64'', ''arm64'', ''386'']),
     KnownOS = (\<lambda>s. s \<in> set [''linux'', ''windows'', ''darwin'']),
     execCache_Do = (\<lambda>prog. prog = ''sh''),
     envvarname = (\<lambda>k. k),
     os_Expand = (\<lambda>s m. expand_name m None s),
     regexp_QuoteMeta = (\<lambda>s. s),
     filepath_IsAbs = (\<lambda>f. HasPrefix f ''/''),
     filepath_Join = (\<lambda>d f. d @ ''/'' @ f),
     strconv_Atoi = (\<lambda>s. Inl (''strconv.Atoi: parsing '' @ s)),
     time_ParseDuration = (\<lambda>s. Inl (''time: invalid duration '' @ s)),
     strconv_Quote = (\<lambda>s. [CHR 0x22] @ s @ [CHR 0x22]),
     txtar_NeedsQuote = (\<lambda>d. HasPrefix d ''-- ''),
     txtar_Quote = (\<lambda>d. if d \<noteq> [] \<and> last d = nl then Inr (CHR ''>'' # d)
                          else Inl ''data has no final newline''),
     txtar_Format = (\<lambda>a. Comment a @
                       concat (map (\<lambda>f. ''-- '' @ Name f @ '' --'' @ [nl] @ Data f) (Files a))),
     WriteFile_error = (\<lambda>f. None),
     req_End = (\<lambda>a. ((Some \<lparr>StatusCode = 200\<rparr>, ''ok'', []), a)),
     ProcessState_Success = (\<lambda>pid. False)\<rparr>"

definition script0 :: Script where
  "script0 = \<lparr>cd = ''/work'', script_file = ''t.hls'', lineno = 0, line = [], env = [],
     envMap = Map.empty, stdin = [], stdout = [], stderr = [], status = 0, stopped = False,
     background = [], archive = \<lparr>Comment = [], Files = []\<rparr>, scriptUpdates = [],
     httpClients = Map.empty, heap = Map.empty, brk = 0, disk = Map.empty, signals = []\<rparr>"

definition params0 :: params where
  "params0 = paramDefaults
     \<lparr>PhasePrefix = [], CommentPrefix = [], Condition = None, Cmds = Map.empty\<rparr>"

text \<open>Two builtin commands: \<open>exec\<close> leaves its arguments in \<open>stdout\<close>, \<open>stop\<close> stops.\<close>

definition cmds0 :: cmds where
  "cmds0 = [''exec'' \<mapsto> (\<lambda>ts n args. (Return (), ts\<lparr>stdout := join_sp args\<rparr>)),
            ''stop'' \<mapsto> (\<lambda>ts n args. (Return (), ts\<lparr>stopped := True\<rparr>))]"


section \<open>Notions used in the statements\<close>

text \<open>
  What a call on the agent at \<open>req\<close> may change: that cell of the heap and nothing else,
  and the pointer it returns is \<open>req\<close>.
\<close>

definition frame :: "nat \<Rightarrow> Script \<Rightarrow> (string + nat) ret \<times> Script \<Rightarrow> bool" where
  "frame req ts res =
     (httpClients (snd res) = httpClients ts \<and> brk (snd res) = brk ts \<and>
      (\<forall>t. t \<noteq> req \<longrightarrow> heap (snd res) t = heap ts t) \<and>
      (heap (snd res) req = None \<longleftrightarrow> heap ts req = None) \<and>
      (\<forall>q. fst res = Return (Inr q) \<longrightarrow> q = req))"

text \<open>
  The heap and the registry of clients fit together: every address in use, and every
  pointer in the registry, is below \<open>brk\<close>.
\<close>

definition heap_ok :: "Script \<Rightarrow> bool" where
  "heap_ok ts =
     ((\<forall>name t. httpClients ts name = Some t \<longrightarrow> t < brk ts) \<and>
      (\<forall>t. brk ts \<le> t \<longrightarrow> heap ts t = None))"

definition put_data :: "string \<Rightarrow> string \<Rightarrow> txtar_File \<Rightarrow> txtar_File" where
  "put_data name d f = (if Name f = name then f\<lparr>Data := d\<rparr> else f)"

text \<open>
  A file of the archive after the updates \<open>ups\<close>: it takes the content recorded under its
  name, quoted where the format needs it.
\<close>

definition updated_file :: "host \<Rightarrow> (string \<times> string) list \<Rightarrow> txtar_File \<Rightarrow> txtar_File" where
  "updated_file h ups f =
     (case map_of ups (Name f) of
        None \<Rightarrow> f
      | Some content \<Rightarrow> (case quoted_data h content of Inr d \<Rightarrow> f\<lparr>Data := d\<rparr> | Inl _ \<Rightarrow> f))"


section \<open>Lemmas about the library functions and the HTTP sub-engine\<close>

lemma Index_append_eq:
  "c \<notin> set k \<Longrightarrow> Index (k @ c # v) c = Some (length k)"
  by (induction k) auto

lemma key_val_split:
  "CHR ''='' \<notin> set k \<Longrightarrow>
   (case Index (k @ CHR ''='' # v) CHR ''='' of None \<Rightarrow> (k @ CHR ''='' # v, [])
    | Some i \<Rightarrow> (take i (k @ CHR ''='' # v), drop (Suc i) (k @ CHR ''='' # v))) = (k, v)"
  by (simp add: Index_append_eq)

lemma applyArgToReq_METHOD:
  "applyArgToReq h ts req (''METHOD='' @ v) = on_agent ts req (\<lambda>a. a\<lparr>Method := ''METHOD''\<rparr>)"
  using key_val_split[of "''METHOD''" v]
  by (simp add: applyArgToReq_def ToUpper_def ToUpper_char_def)

lemma applyArgToReq_M:
  "applyArgToReq h ts req (''m='' @ v) = on_agent ts req (\<lambda>a. a\<lparr>Method := ''M''\<rparr>)"
  using key_val_split[of "''m''" v]
  by (simp add: applyArgToReq_def ToUpper_def ToUpper_char_def)

lemma http_issue:
  assumes "args \<noteq> []" "hd args \<noteq> ''client''"
    and "reqFromArgs h ts args = (Return (Inr req), ts')"
    and "heap ts' req = Some a"
    and "req_End h a = ((resp, raw, errs), a')"
  shows "http h ts args =
           (http_classify resp (raw @ [nl]) errs, ts'\<lparr>heap := (heap ts')(req \<mapsto> a')\<rparr>)"
  using assms by (cases args) (simp_all add: http_def)

lemma frame_refl [simp]: "frame req ts (Abort x, ts)" "frame req ts (Return (Inl e), ts)"
  by (simp_all add: frame_def)

lemma on_agent_frame [simp]: "frame req ts (on_agent ts req f)"
  by (auto simp: frame_def on_agent_def split: option.splits)

lemma applyArgToReq_frame: "frame req ts (applyArgToReq h ts req arg)"
  unfolding applyArgToReq_def Let_def
  by (simp split: prod.splits ret.splits sum.splits list.splits option.splits)

lemma frame_trans:
  "frame req ts (Return (Inr req), ts1) \<Longrightarrow> frame req ts1 res \<Longrightarrow> frame req ts res"
  by (simp add: frame_def)

lemma applyArgsToReq_frame: "frame req ts (applyArgsToReq h ts req args)"
proof (induction args arbitrary: ts)
  case Nil
  then show ?case by (simp add: frame_def)
next
  case (Cons arg args)
  obtain r ts1 where s: "applyArgToReq h ts req arg = (r, ts1)" by fastforce
  have f: "frame req ts (r, ts1)" using applyArgToReq_frame[of req ts h arg] s by simp
  show ?case
  proof (cases r)
    case (Abort x)
    with s f show ?thesis by simp
  next
    case (Return v)
    show ?thesis
    proof (cases v)
      case (Inl e)
      with Return s f show ?thesis by simp
    next
      case (Inr q)
      with Return f have q: "q = req" by (simp add: frame_def)
      with Return Inr s f Cons.IH[of ts1] show ?thesis
        by (auto intro: frame_trans)
    qed
  qed
qed

lemma reqFromArgs_template:
  assumes "httpClients ts name = Some t" "heap ts t = Some tmpl" "t < brk ts"
  shows "heap (snd (reqFromArgs h ts (name # overrides))) t = Some tmpl"
    and "httpClients (snd (reqFromArgs h ts (name # overrides))) = httpClients ts"
    and "\<forall>q. fst (reqFromArgs h ts (name # overrides)) = Return (Inr q) \<longrightarrow> q = brk ts"
proof -
  let ?ts1 = "ts\<lparr>heap := (heap ts)(brk ts \<mapsto> tmpl), brk := Suc (brk ts)\<rparr>"
  have r: "reqFromArgs h ts (name # overrides) = applyArgsToReq h ?ts1 (brk ts) overrides"
    using assms by (simp add: reqFromArgs_def alloc_def)
  have f: "frame (brk ts) ?ts1 (applyArgsToReq h ?ts1 (brk ts) overrides)"
    by (rule applyArgsToReq_frame)
  show "heap (snd (reqFromArgs h ts (name # overrides))) t = Some tmpl"
    using f assms unfolding r frame_def by simp
  show "httpClients (snd (reqFromArgs h ts (name # overrides))) = httpClients ts"
    using f unfolding r frame_def by simp
  show "\<forall>q. fst (reqFromArgs h ts (name # overrides)) = Return (Inr q) \<longrightarrow> q = brk ts"
    using f unfolding r frame_def by simp
qed

lemma http_template:
  assumes "httpClients ts name = Some t" "heap ts t = Some tmpl" "t < brk ts" "name \<noteq> ''client''"
  shows "heap (snd (http h ts (name # overrides))) t = Some tmpl \<and>
         httpClients (snd (http h ts (name # overrides))) = httpClients ts"
proof -
  obtain r ts1 where s: "reqFromArgs h ts (name # overrides) = (r, ts1)" by fastforce
  have 1: "heap ts1 t = Some tmpl" "httpClients ts1 = httpClients ts"
    and 2: "\<forall>q. r = Return (Inr q) \<longrightarrow> q = brk ts"
    using reqFromArgs_template[OF assms(1-3), of h overrides] s by simp_all
  show ?thesis
    using assms(3,4) s 1 2
    by (auto simp: http_def Let_def split: ret.splits sum.splits option.splits prod.splits)
qed

lemma frame_heap_ok:
  assumes "frame req ts res" and "heap_ok ts"
  shows "heap_ok (snd res)"
proof -
  have c: "httpClients (snd res) = httpClients ts" and b: "brk (snd res) = brk ts"
    and o: "\<And>t. t \<noteq> req \<Longrightarrow> heap (snd res) t = heap ts t"
    and r: "heap (snd res) req = None \<longleftrightarrow> heap ts req = None"
    using assms(1) by (simp_all add: frame_def)
  have "heap (snd res) t = None" if "brk ts \<le> t" for t
  proof (cases "t = req")
    case True
    with that assms(2) r show ?thesis by (simp add: heap_ok_def)
  next
    case False
    with that assms(2) o show ?thesis by (simp add: heap_ok_def)
  qed
  with assms(2) c b show ?thesis by (simp add: heap_ok_def)
qed

lemma newReqFromArgs_frame:
  "frame (brk ts) (ts\<lparr>brk := Suc (brk ts),
                     heap := (heap ts)(brk ts \<mapsto> gorequest_New\<lparr>Method := ''GET''\<rparr>)\<rparr>) (newReqFromArgs h ts args)"
proof -
  have "newReqFromArgs h ts args =
        applyArgsToReq h (ts\<lparr>brk := Suc (brk ts),
                     heap := (heap ts)(brk ts \<mapsto> gorequest_New\<lparr>Method := ''GET''\<rparr>)\<rparr>) (brk ts) args"
    by (simp add: newReqFromArgs_def alloc_def applyDefaultsToReq_def on_agent_def)
  then show ?thesis by (simp add: applyArgsToReq_frame)
qed

lemma heap_ok_alloc:
  "heap_ok ts \<Longrightarrow> heap_ok (ts\<lparr>heap := (heap ts)(brk ts \<mapsto> a), brk := Suc (brk ts)\<rparr>)"
  by (auto simp: heap_ok_def less_Suc_eq)

lemma newReqFromArgs_heap_ok:
  assumes "heap_ok ts"
  shows "heap_ok (snd (newReqFromArgs h ts args))"
    and "fst (newReqFromArgs h ts args) = Return (Inr q) \<Longrightarrow> q < brk (snd (newReqFromArgs h ts args))"
proof -
  note f = newReqFromArgs_frame[of ts h args]
  show "heap_ok (snd (newReqFromArgs h ts args))"
    by (rule frame_heap_ok[OF f]) (use assms in \<open>auto simp: heap_ok_def less_Suc_eq\<close>)
  show "fst (newReqFromArgs h ts args) = Return (Inr q) \<Longrightarrow> q < brk (snd (newReqFromArgs h ts args))"
    using f by (simp add: frame_def)
qed

lemma reqFromArgs_heap_ok:
  assumes "heap_ok ts"
  shows "heap_ok (snd (reqFromArgs h ts args))"
proof (cases args)
  case Nil
  then show ?thesis using assms by (simp add: reqFromArgs_def)
next
  case (Cons a0 rest)
  show ?thesis
  proof (cases "httpClients ts a0")
    case None
    then show ?thesis using Cons newReqFromArgs_heap_ok(1)[OF assms] by (simp add: reqFromArgs_def)
  next
    case (Some req)
    show ?thesis
    proof (cases "heap ts req")
      case None
      with Some Cons assms show ?thesis by (simp add: reqFromArgs_def)
    next
      case (Some tmpl)
      have "heap_ok (snd (applyArgsToReq h (ts\<lparr>heap := (heap ts)(brk ts \<mapsto> tmpl), brk := Suc (brk ts)\<rparr>)
                      (brk ts) rest))"
        by (rule frame_heap_ok[OF applyArgsToReq_frame]) (rule heap_ok_alloc[OF assms])
      with Some \<open>httpClients ts a0 = Some req\<close> Cons show ?thesis
        by (simp add: reqFromArgs_def alloc_def)
    qed
  qed
qed

lemma heap_ok_register:
  "heap_ok ts \<Longrightarrow> q < brk ts \<Longrightarrow> heap_ok (ts\<lparr>httpClients := (httpClients ts)(name \<mapsto> q)\<rparr>)"
  by (auto simp: heap_ok_def)

lemma heap_ok_unregister:
  "heap_ok ts \<Longrightarrow> heap_ok (ts\<lparr>httpClients := (httpClients ts)(name := None)\<rparr>)"
  by (auto simp: heap_ok_def)

lemma manageHttpClient_heap_ok:
  assumes "heap_ok ts"
  shows "heap_ok (snd (manageHttpClient h ts args))"
proof (cases args)
  case Nil
  then show ?thesis using assms by (simp add: manageHttpClient_def)
next
  case (Cons key named)
  obtain name args' where na: "(case named of [] \<Rightarrow> (''default'', []) | n # ns \<Rightarrow> (n, ns)) = (name, args')"
    by fastforce
  consider (new) "key = ''new''" | (mod) "key = ''mod''" | (del) "key = ''del''"
    | (other) "key \<noteq> ''new''" "key \<noteq> ''mod''" "key \<noteq> ''del''" by blast
  then show ?thesis
  proof cases
    case new
    obtain r ts' where s: "newReqFromArgs h ts args' = (r, ts')" by fastforce
    have ok: "heap_ok ts'" and q: "\<And>q. r = Return (Inr q) \<Longrightarrow> q < brk ts'"
      using newReqFromArgs_heap_ok[OF assms, of h args'] s by simp_all
    have m: "manageHttpClient h ts args =
             (case r of Abort x \<Rightarrow> (Abort x, ts')
              | Return (Inl e) \<Rightarrow> (Abort (FailNow e), ts')
              | Return (Inr req) \<Rightarrow>
                  (Return (), ts'\<lparr>httpClients := (httpClients ts')(name \<mapsto> req)\<rparr>))"
      using Cons na new s by (simp add: manageHttpClient_def)
    show ?thesis
    proof (cases r)
      case (Abort x)
      with m ok show ?thesis by simp
    next
      case (Return v)
      show ?thesis
      proof (cases v)
        case (Inl e)
        with m ok Return show ?thesis by simp
      next
        case (Inr req)
        with m ok Return q[of req] show ?thesis by (simp add: heap_ok_register)
      qed
    qed
  next
    case mod
    show ?thesis
    proof (cases "httpClients ts name")
      case None
      with Cons na mod assms show ?thesis by (simp add: manageHttpClient_def)
    next
      case (Some req)
      obtain r ts' where s: "applyArgsToReq h ts req args' = (r, ts')" by fastforce
      have f: "frame req ts (r, ts')" using applyArgsToReq_frame[of req ts h args'] s by simp
      have ok: "heap_ok ts'" using frame_heap_ok[OF f assms] by simp
      have lt: "req < brk ts'" using f Some assms by (auto simp: frame_def heap_ok_def)
      have q: "\<And>q. r = Return (Inr q) \<Longrightarrow> q = req" using f by (simp add: frame_def)
      have m: "manageHttpClient h ts args =
               (case r of Abort x \<Rightarrow> (Abort x, ts')
                | Return (Inl e) \<Rightarrow> (Abort (FailNow e), ts')
                | Return (Inr req') \<Rightarrow>
                    (Return (), ts'\<lparr>httpClients := (httpClients ts')(name \<mapsto> req')\<rparr>))"
        using Cons na mod Some s by (simp add: manageHttpClient_def)
      show ?thesis
      proof (cases r)
        case (Abort x)
        with m ok show ?thesis by simp
      next
        case (Return v)
        show ?thesis
        proof (cases v)
          case (Inl e)
          with m ok Return show ?thesis by simp
        next
          case (Inr req')
          with m ok Return q[of req'] lt show ?thesis by (simp add: heap_ok_register)
        qed
      qed
    qed
  next
    case del
    show ?thesis
    proof (cases "httpClients ts name")
      case None
      with Cons na del assms show ?thesis by (simp add: manageHttpClient_def)
    next
      case (Some req)
      with Cons na del heap_ok_unregister[OF assms, of name] show ?thesis
        by (simp add: manageHttpClient_def)
    qed
  next
    case other
    with Cons na assms show ?thesis by (simp add: manageHttpClient_def)
  qed
qed

lemma http_heap_ok:
  assumes "heap_ok ts"
  shows "heap_ok (snd (http h ts args))"
proof (cases args)
  case Nil
  then show ?thesis using assms by (simp add: http_def)
next
  case (Cons a0 rest)
  show ?thesis
  proof (cases "a0 = ''client''")
    case True
    obtain r ts' where s: "manageHttpClient h ts rest = (r, ts')" by fastforce
    have "heap_ok ts'" using manageHttpClient_heap_ok[OF assms, of h rest] s by simp
    with Cons True s show ?thesis by (cases r) (simp_all add: http_def)
  next
    case False
    obtain r ts' where s: "reqFromArgs h ts (a0 # rest) = (r, ts')" by fastforce
    have ok: "heap_ok ts'" using reqFromArgs_heap_ok[OF assms, of h "a0 # rest"] s by simp
    have upd: "heap_ok (ts'\<lparr>heap := (heap ts')(q \<mapsto> a')\<rparr>)" if "heap ts' q = Some a" for q a a'
      using ok that by (auto simp: heap_ok_def)
    have m: "http h ts args =
             (case r of Abort x \<Rightarrow> (Abort x, ts')
              | Return (Inl e) \<Rightarrow> (Abort (FailNow e), ts')
              | Return (Inr req) \<Rightarrow>
                 (case heap ts' req of
                    None \<Rightarrow> (Abort (Panic ''invalid memory address or nil pointer dereference''), ts')
                  | Some a \<Rightarrow>
                     (let ((resp, body, errs), a') = req_End h a;
                          ts'' = ts'\<lparr>heap := (heap ts')(req \<mapsto> a')\<rparr>
                      in (http_classify resp (body @ [nl]) errs, ts''))))"
      using Cons False s by (simp add: http_def)
    show ?thesis
    proof (cases r)
      case (Abort x)
      with m ok show ?thesis by simp
    next
      case (Return v)
      show ?thesis
      proof (cases v)
        case (Inl e)
        with m ok Return show ?thesis by simp
      next
        case (Inr req)
        show ?thesis
        proof (cases "heap ts' req")
          case None
          with m ok Return Inr show ?thesis by simp
        next
          case (Some a)
          obtain resp body errs a' where e: "req_End h a = ((resp, body, errs), a')"
            by (metis prod.exhaust)
          with m Return Inr Some upd[OF Some, of a'] show ?thesis by simp
        qed
      qed
    qed
  qed
qed


section \<open>Lemmas about the parser and the run loop\<close>














lemma parse_loop_unterminated:
  "(quoted \<longrightarrow> start \<noteq> None) \<Longrightarrow>
   (case parse_loop E ln i args arg start quoted of
      Abort x \<Rightarrow> unterminated_from quoted (drop i ln) \<and> x = FailNow ''unterminated quoted argument''
    | Return r \<Rightarrow> \<not> unterminated_from quoted (drop i ln))"
proof (induction E ln i args arg start quoted rule: parse_loop.induct)
  case (1 E ln i args arg start quoted)
  show ?case
  proof (cases "i < length ln")
    case False
    then show ?thesis
      by (subst parse_loop.simps) (auto simp: Let_def)
  next
    case True
    then have d: "drop i ln = ln ! i # drop (Suc i) ln"
      by (simp add: Cons_nth_drop_Suc)
    have d2: "Suc i < length ln \<Longrightarrow> drop (Suc i) ln = ln ! Suc i # drop (Suc (Suc i)) ln"
      by (simp add: Cons_nth_drop_Suc)
    have d3: "\<not> Suc i < length ln \<Longrightarrow> drop (Suc i) ln = []"
      by simp
    show ?thesis
    proof (cases "ln ! i = sq")
      case sqT: True
      show ?thesis
      proof (cases quoted)
        case qF: False
        then show ?thesis
          using "1.IH"(2)[OF _ _ sqT] True sqT d
          by (subst parse_loop.simps) (auto split: ret.splits)
      next
        case qT: True
        then obtain s where s: "start = Some s" using "1.prems" by auto
        show ?thesis
        proof (cases "Suc i < length ln \<and> ln ! Suc i = sq")
          case dbl: True
          then show ?thesis
            using "1.IH"(3)[OF _ _ sqT _ s dbl] True sqT qT s d d2
            by (subst parse_loop.simps) (auto split: ret.splits)
        next
          case cl: False
          then show ?thesis
            using "1.IH"(4)[OF _ _ sqT _ s cl] True sqT qT s d 
            by (subst parse_loop.simps) (auto split: ret.splits)
        qed
      qed
    next
      case sqF: False
      show ?thesis
      proof (cases "\<not> quoted \<and> (ln ! i = CHR '' '' \<or> ln ! i = CHR 0x09 \<or> ln ! i = CHR 0x0D \<or> ln ! i = CHR ''#'')")
        case sep: True
        then show ?thesis
          using "1.IH"(1)[OF _ refl refl] True sqF d
          by (subst parse_loop.simps) (auto simp: Let_def split: ret.splits)
      next
        case nosep: False
        then show ?thesis
          using "1.IH"(5)[OF _ _ sqF] "1.prems" True sqF d
          by (subst parse_loop.simps) (auto split: option.splits ret.splits)
      qed
    qed
  qed
qed

lemma Getenv_line: "Getenv h (ts\<lparr>line := ln\<rparr>) = Getenv h ts"
  by (intro ext) (simp add: Getenv_def)

lemma expand_line [simp]: "expand h (ts\<lparr>line := ln\<rparr>) = expand h ts"
  unfolding expand_def Getenv_line ..

lemma parse_unterminated:
  "unterminated ln \<Longrightarrow>
   parse h ts ln = (Abort (FailNow ''unterminated quoted argument''), ts\<lparr>line := ln\<rparr>)"
  using parse_loop_unterminated[where quoted = False and start = None
      and E = "expand h (ts\<lparr>line := ln\<rparr>)" and ln = ln and i = 0 and args = "[]" and arg = "[]"]
  by (auto simp: parse_def unterminated_def Let_def split: ret.splits)

lemma parse_terminated:
  "\<not> unterminated ln \<Longrightarrow> \<exists>r. parse h ts ln = (Return r, ts\<lparr>line := ln\<rparr>)"
  using parse_loop_unterminated[where quoted = False and start = None
      and E = "expand h (ts\<lparr>line := ln\<rparr>)" and ln = ln and i = 0 and args = "[]" and arg = "[]"]
  by (auto simp: parse_def unterminated_def Let_def split: ret.splits)

lemma run_line_unterminated:
  assumes "\<not> HasPrefix ln (PhasePrefix p)" "\<not> HasPrefix ln (CommentPrefix p)" "unterminated ln"
  shows "run_line h p sc ts ln = (Abort (FailNow ''unterminated quoted argument''), ts\<lparr>line := ln\<rparr>)"
  using assms by (simp add: run_line_def parse_unterminated)

lemma run_loop_unterminated:
  assumes "script \<noteq> []"
    and "\<not> HasPrefix (fst (next_line script)) (PhasePrefix p)"
    and "\<not> HasPrefix (fst (next_line script)) (CommentPrefix p)"
    and "unterminated (fst (next_line script))"
  shows "run_loop h p sc script ts =
           (Abort (FailNow ''unterminated quoted argument''),
            ts\<lparr>lineno := Suc (lineno ts), line := fst (next_line script)\<rparr>)"
  using assms by (subst run_loop.simps) (simp add: run_line_unterminated)

lemma run_conds_agree:
  "is_guard a \<Longrightarrow> args \<noteq> [] \<Longrightarrow> condition h p (guard_cond a) = Return (guard_want a, None) \<Longrightarrow>
   run_conds h p (a # args) = run_conds h p args"
  by simp

lemma run_conds_disagree:
  "is_guard a \<Longrightarrow> args \<noteq> [] \<Longrightarrow> condition h p (guard_cond a) = Return (ok, None) \<Longrightarrow>
   ok \<noteq> guard_want a \<Longrightarrow> run_conds h p (a # args) = Return None"
  by simp

lemma run_conds_strip:
  "\<forall>a\<in>set gs. is_guard a \<and> condition h p (guard_cond a) = Return (guard_want a, None) \<Longrightarrow>
   args \<noteq> [] \<Longrightarrow> run_conds h p (gs @ args) = run_conds h p args"
  by (induction gs) simp_all

lemma run_line_skip:
  assumes "\<not> HasPrefix ln (PhasePrefix p)" "\<not> HasPrefix ln (CommentPrefix p)"
    and "fst (parse h ts ln) = Return args" and "run_conds h p args = Return None"
  shows "run_line h p sc ts ln = (Return Next, ts\<lparr>line := ln\<rparr>)"
proof -
  have "parse h ts ln = (Return args, ts\<lparr>line := ln\<rparr>)"
    using assms(3) by (simp add: parse_def Let_def)
  moreover have "args \<noteq> []" using assms(4) by auto
  ultimately show ?thesis using assms by (simp add: run_line_def)
qed


section \<open>Lemmas about the environment and the golden-file updates\<close>

lemma setup_envMap_foldl:
  "foldl (\<lambda>m kv. case Index kv CHR ''='' of
                    Some i \<Rightarrow> m(envvarname h (take i kv) \<mapsto> drop (Suc i) kv)
                  | None \<Rightarrow> m) m vars =
   (\<lambda>k. case replay_env h vars k of Some v \<Rightarrow> Some v | None \<Rightarrow> m k)"
proof (induction vars arbitrary: m)
  case Nil
  then show ?case by simp
next
  case (Cons kv vars)
  show ?case
    by (rule ext) (simp add: Cons.IH split: option.splits)
qed

lemma setup_envMap_replay: "setup_envMap h vars = replay_env h vars"
  by (rule ext) (simp add: setup_envMap_def setup_envMap_foldl split: option.splits)

lemma setup_env_matches: "env_matches h (setup_env h ts dir vars)"
  by (simp add: env_matches_def setup_env_def setup_envMap_replay)

lemma replay_env_snoc:
  "replay_env h (vars @ [kv]) k =
     (case Index kv CHR ''='' of
        Some i \<Rightarrow> if envvarname h (take i kv) = k then Some (drop (Suc i) kv)
                  else replay_env h vars k
      | None \<Rightarrow> replay_env h vars k)"
  by (induction vars) (auto split: option.splits)

lemma Setenv_env_matches:
  assumes "env_matches h ts" and "CHR ''='' \<notin> set key"
  shows "env_matches h (Setenv h ts key val)"
proof -
  have "Index (key @ CHR ''='' # val) CHR ''='' = Some (length key)"
    using assms(2) by (rule Index_append_eq)
  then have "replay_env h (env ts @ [key @ ''='' @ val]) =
             (replay_env h (env ts))(envvarname h key \<mapsto> val)"
    by (intro ext) (simp add: replay_env_snoc)
  then show ?thesis using assms(1) by (simp add: env_matches_def Setenv_def)
qed

lemma Env_Getenv_from_replay:
  "Env_Getenv_from h (rev vars) k = (case replay_env h vars k of Some v \<Rightarrow> v | None \<Rightarrow> [])"
  by (induction vars rule: rev_induct) (auto simp: replay_env_snoc split: option.splits)

lemma Getenv_last_value:
  "env_matches h ts \<Longrightarrow> Getenv h ts key = Env_Getenv h (env ts) key"
  by (simp add: env_matches_def Getenv_def Env_Getenv_def Env_Getenv_from_replay)

lemma update_files_ok:
  "quoted_data h content = Inr d \<Longrightarrow>
   update_files h name content fs found =
     (Return (found \<or> name \<in> Name ` set fs), map (put_data name d) fs)"
  by (induction fs arbitrary: found) (auto simp: put_data_def)

lemma Name_put_data [simp]: "Name (put_data name d f) = Name f"
  by (simp add: put_data_def)

lemma apply_updates_ok:
  assumes "distinct (map fst ups)"
    and "\<forall>(n, c)\<in>set ups. \<exists>d. quoted_data h c = Inr d"
    and "\<forall>(n, c)\<in>set ups. n \<in> Name ` set fs"
  shows "apply_updates h ups fs = (Return (), map (updated_file h ups) fs)"
  using assms
proof (induction ups arbitrary: fs)
  case Nil
  then show ?case by (simp add: updated_file_def)
next
  case (Cons u ups)
  obtain n c where u: "u = (n, c)" by (cases u)
  obtain d where d: "quoted_data h c = Inr d" using Cons.prems(2) u by auto
  have n: "n \<in> Name ` set fs" using Cons.prems(3) u by auto
  have names: "Name ` set (map (put_data n d) fs) = Name ` set fs"
    by (simp add: image_image)
  have IH: "apply_updates h ups (map (put_data n d) fs) =
            (Return (), map (updated_file h ups) (map (put_data n d) fs))"
    by (rule Cons.IH) (use Cons.prems u names in auto)
  have fresh: "map_of ups n = None"
    using Cons.prems(1) u by (simp add: map_of_eq_None_iff)
  have "updated_file h ups (put_data n d f) = updated_file h ((n, c) # ups) f" for f
    using fresh d by (auto simp: updated_file_def put_data_def split: option.splits sum.splits)
  with IH n d u show ?case by (simp add: update_files_ok)
qed

lemma apply_updates_missing:
  assumes "\<forall>(n, c)\<in>set ups. \<exists>d. quoted_data h c = Inr d"
    and "\<exists>(n, c)\<in>set ups. n \<notin> Name ` set fs"
  shows "fst (apply_updates h ups fs) = Abort (Panic ''script update file not found'')"
  using assms
proof (induction ups arbitrary: fs)
  case Nil
  then show ?case by simp
next
  case (Cons u ups)
  obtain n c where u: "u = (n, c)" by (cases u)
  obtain d where d: "quoted_data h c = Inr d" using Cons.prems(1) u by auto
  show ?case
  proof (cases "n \<in> Name ` set fs")
    case False
    with u d show ?thesis by (simp add: update_files_ok)
  next
    case True
    have names: "Name ` set (map (put_data n d) fs) = Name ` set fs"
      by (simp add: image_image)
    have "fst (apply_updates h ups (map (put_data n d) fs)) =
          Abort (Panic ''script update file not found'')"
      by (rule Cons.IH) (use Cons.prems u True names in auto)
    with True u d show ?thesis by (simp add: update_files_ok)
  qed
qed

lemma applyScriptUpdates_ok:
  assumes "scriptUpdates ts \<noteq> []" "distinct (map fst (scriptUpdates ts))"
    and "\<forall>(n, c)\<in>set (scriptUpdates ts). \<exists>d. quoted_data h c = Inr d"
    and "\<forall>(n, c)\<in>set (scriptUpdates ts). n \<in> Name ` set (Files (archive ts))"
    and "WriteFile_error h (script_file ts) = None"
  shows "applyScriptUpdates h ts =
          (Return (),
           ts\<lparr>archive := (archive ts)\<lparr>Files := map (updated_file h (scriptUpdates ts)) (Files (archive ts))\<rparr>,
              disk := (disk ts)(script_file ts \<mapsto>
                 txtar_Format h ((archive ts)\<lparr>Files := map (updated_file h (scriptUpdates ts)) (Files (archive ts))\<rparr>))\<rparr>)"
  using assms by (simp add: applyScriptUpdates_def apply_updates_ok Let_def)

lemma applyScriptUpdates_missing:
  assumes "\<forall>(n, c)\<in>set (scriptUpdates ts). \<exists>d. quoted_data h c = Inr d"
    and "\<exists>(n, c)\<in>set (scriptUpdates ts). n \<notin> Name ` set (Files (archive ts))"
  shows "fst (applyScriptUpdates h ts) = Abort (Panic ''script update file not found'') \<and>
         disk (snd (applyScriptUpdates h ts)) = disk ts"
proof -
  have ne: "scriptUpdates ts \<noteq> []" using assms(2) by auto
  obtain r fs' where a: "apply_updates h (scriptUpdates ts) (Files (archive ts)) = (r, fs')"
    by fastforce
  with apply_updates_missing[OF assms] have "r = Abort (Panic ''script update file not found'')"
    by simp
  with a ne show ?thesis by (simp add: applyScriptUpdates_def)
qed


section \<open>Evaluations used by the examples\<close>

lemma reqFromArgs_new_url:
  "reqFromArgs h script0 [''http://example.com''] =
     (Return (Inr 0),
      script0\<lparr>heap := [0 \<mapsto> \<lparr>Url = ''http://example.com'', Method = ''GET'', calls = []\<rparr>],
              brk := 1\<rparr>)"
  by (simp add: reqFromArgs_def newReqFromArgs_def script0_def alloc_def gorequest_New_def
      applyDefaultsToReq_def on_agent_def applyArgToReq_def ToUpper_def ToUpper_char_def
      HasPrefix_def)


section \<open>The claims\<close>

subsection \<open>C1: a single-quoted span is one literal chunk\<close>




subsection \<open>C2: a guard that disagrees skips the line\<close>

text \<open>
  Claim C2. On a command line that starts with guards \<open>[cond]\<close> or \<open>[!cond]\<close>, a guard
  whose condition holds as wanted is stripped and the next one is looked at. When the
  guards \<open>gs\<close> agree and the condition of the guard \<open>g\<close> after them evaluates to the
  opposite of what \<open>g\<close> wants, the rest of the line is skipped: the loop goes on to the
  next line, no command has run (the state is what it was but for the current line) and
  there is no failure.
\<close>

theorem disagreeing_guard_skips_line:
  assumes "\<not> HasPrefix ln (PhasePrefix p)" and "\<not> HasPrefix ln (CommentPrefix p)"
    and "fst (parse h ts ln) = Return (gs @ g # rest)" and "rest \<noteq> []"
    and "\<forall>a\<in>set gs. is_guard a \<and> condition h p (guard_cond a) = Return (guard_want a, None)"
    and "is_guard g" and "condition h p (guard_cond g) = Return (ok, None)"
    and "ok \<noteq> guard_want g"
  shows "run_conds h p (gs @ g # rest) = run_conds h p (g # rest) \<and>
         run_conds h p (g # rest) = Return None \<and>
         run_line h p sc ts ln = (Return Next, ts\<lparr>line := ln\<rparr>)"
proof -
  have 1: "run_conds h p (gs @ g # rest) = run_conds h p (g # rest)"
    using assms(5) by (rule run_conds_strip) simp
  have 2: "run_conds h p (g # rest) = Return None"
    using assms(6,4,7,8) by (rule run_conds_disagree)
  have 3: "run_line h p sc ts ln = (Return Next, ts\<lparr>line := ln\<rparr>)"
    using run_line_skip[OF assms(1,2,3)] 1 2 by simp
  from 1 2 3 show ?thesis by simp
qed

lemma parse_example:
  "fst (parse host0 script0 ''[linux] [!short] exec sleep 10'') =
     Return ([''[linux]''] @ ''[!short]'' # [''exec'', ''sleep'', ''10''])"
  by (simp add: parse_def parse_loop.simps Let_def slice_def expand_def host0_def)

theorem disagreeing_guard_skips_line_witness:
  "run_conds host0 params0 [''[linux]'', ''[!short]'', ''exec'', ''sleep'', ''10''] = Return None \<and>
   run_line host0 params0 cmds0 script0 ''[linux] [!short] exec sleep 10'' =
     (Return Next, script0\<lparr>line := ''[linux] [!short] exec sleep 10''\<rparr>)"
proof -
  let ?ln = "''[linux] [!short] exec sleep 10''"
  have a: "\<not> HasPrefix ?ln (PhasePrefix params0)" "\<not> HasPrefix ?ln (CommentPrefix params0)"
    by (simp_all add: HasPrefix_def params0_def paramDefaults_def)
  have b: "[''exec'', ''sleep'', ''10''] \<noteq> []" by simp
  have c: "\<forall>a\<in>set [''[linux]'']. is_guard a \<and>
             condition host0 params0 (guard_cond a) = Return (guard_want a, None)"
    by (simp add: is_guard_def HasPrefix_def HasSuffix_def guard_cond_def guard_want_def
        slice_def TrimSpace_def isSpace_def condition_def host0_def)
  have d: "is_guard ''[!short]''"
    by (simp add: is_guard_def HasPrefix_def HasSuffix_def)
  have e: "condition host0 params0 (guard_cond ''[!short]'') = Return (True, None)"
    by (simp add: guard_cond_def HasPrefix_def slice_def TrimSpace_def isSpace_def
        condition_def host0_def)
  have f: "True \<noteq> guard_want ''[!short]''"
    by (simp add: guard_want_def HasPrefix_def slice_def TrimSpace_def isSpace_def)
  from disagreeing_guard_skips_line[OF a parse_example b c d e f, of cmds0]
  show ?thesis by simp
qed


subsection \<open>C3: the environment list and the lookup map\<close>

text \<open>
  Where the invariant of claim C3 holds: \<open>setup\<close> establishes it
  (\<open>setup_env_matches\<close>), \<open>Setenv\<close> keeps it for a key without \<open>=\<close>
  (\<open>Setenv_env_matches\<close>), and under it \<open>Getenv\<close> is the last value of the list for
  the normalised key, the empty string where there is none (\<open>Getenv_last_value\<close>).
\<close>

text \<open>
  Claim C3 says that the map is the replay of the list at every point and after every
  \<open>Setenv\<close>. \<open>Script.Setenv\<close> takes any key (\<open>Env.Setenv\<close> refuses one with \<open>=\<close>). After
  \<open>Setenv("A=B", "c")\<close> the list ends in \<open>A=B=c\<close>, whose replay gives \<open>A\<close> the value
  \<open>B=c\<close>, while the map has \<open>c\<close> under the key \<open>A=B\<close> and nothing under \<open>A\<close>: the map
  no longer matches the list.
\<close>

theorem Setenv_key_with_equals_sign:
  "Getenv host0 (Setenv host0 (setup_env host0 script0 ''/work'' []) ''A=B'' ''c'') ''A'' = [] \<and>
   Env_Getenv host0 (env (Setenv host0 (setup_env host0 script0 ''/work'' []) ''A=B'' ''c'')) ''A''
     = ''B=c'' \<and>
   \<not> env_matches host0 (Setenv host0 (setup_env host0 script0 ''/work'' []) ''A=B'' ''c'')"
proof -
  let ?ts = "Setenv host0 (setup_env host0 script0 ''/work'' []) ''A=B'' ''c''"
  have g: "Getenv host0 ?ts ''A'' = []"
    by (simp add: Getenv_def Setenv_def setup_env_def setup_envMap_def host0_def)
  have e: "Env_Getenv host0 (env ?ts) ''A'' = ''B=c''"
    by (simp add: Env_Getenv_def Setenv_def setup_env_def host0_def)
  have "\<not> env_matches host0 ?ts"
    using Getenv_last_value[of host0 ?ts "''A''"] g e by auto
  with g e show ?thesis by simp
qed


subsection \<open>C4: transport errors of an HTTP request\<close>

lemma http_classify_errors_not_discarded:
  "errs \<noteq> [] \<Longrightarrow> http_classify resp body errs \<noteq> Return (out, eout, st, None)"
  by (auto simp: http_classify_def split: option.splits)

text \<open>
  Claim C4 says that a transport error with the GOAWAY text is suppressed and that every
  other transport error is reported as an internal-error failure that holds the response
  body. gorequest's \<open>End\<close> returns no response (a nil pointer) whenever it returns errors,
  and both branches of \<open>http\<close> for a transport error read \<open>resp.StatusCode\<close>. So for a
  request that ends in a transport error, whatever the text of the error, \<open>http\<close> ends in
  the panic of a nil pointer: the error is neither suppressed nor returned as a failure.
  (No branch discards the errors either: \<open>http_classify_errors_not_discarded\<close>.)
\<close>

theorem transport_error_panics:
  assumes "args \<noteq> []" and "hd args \<noteq> ''client''"
    and "reqFromArgs h ts args = (Return (Inr req), ts')"
    and "heap ts' req = Some a"
    and "req_End h a = ((None, raw, errs), a')"
  shows "fst (http h ts args) =
           Abort (Panic ''invalid memory address or nil pointer dereference'')"
  by (simp add: http_issue[OF assms] http_classify_def)

theorem transport_error_panics_witness:
  "fst (http (host0\<lparr>req_End := (\<lambda>a. ((None, [], [HTTP2_GOAWAY_CHECK]), a))\<rparr>)
         script0 [''http://example.com'']) =
     Abort (Panic ''invalid memory address or nil pointer dereference'') \<and>
   fst (http (host0\<lparr>req_End := (\<lambda>a. ((None, [], [''dial tcp: connection refused'']), a))\<rparr>)
         script0 [''http://example.com'']) =
     Abort (Panic ''invalid memory address or nil pointer dereference'')"
proof -
  let ?g = "host0\<lparr>req_End := (\<lambda>a. ((None, [], [HTTP2_GOAWAY_CHECK]), a))\<rparr>"
  let ?r = "host0\<lparr>req_End := (\<lambda>a. ((None, [], [''dial tcp: connection refused'']), a))\<rparr>"
  let ?a = "\<lparr>Url = ''http://example.com'', Method = ''GET'', calls = []\<rparr>"
  have 1: "[''http://example.com''] \<noteq> []" "hd [''http://example.com''] \<noteq> ''client''" by simp_all
  have 2: "heap (script0\<lparr>heap := [0 \<mapsto> ?a], brk := 1\<rparr>) 0 = Some ?a" by simp
  have 3: "req_End ?g ?a = ((None, [], [HTTP2_GOAWAY_CHECK]), ?a)" by simp
  have 4: "req_End ?r ?a = ((None, [], [''dial tcp: connection refused'']), ?a)" by simp
  from transport_error_panics[OF 1 reqFromArgs_new_url 2 3]
    transport_error_panics[OF 1 reqFromArgs_new_url 2 4]
  show ?thesis by simp
qed


subsection \<open>C5: the method argument\<close>

text \<open>
  Claim C5 says that \<open>METHOD=<value>\<close> and \<open>M=<value>\<close> set the method of the request
  to the value. The code assigns the upper-cased key instead: the request built from
  \<open>METHOD=POST\<close> has the method \<open>METHOD\<close> and the one built from \<open>m=put\<close> the
  method \<open>M\<close>. A bare verb does set the method.
\<close>

theorem METHOD_argument_assigns_the_key:
  "reqFromArgs host0 script0 [''METHOD=POST''] =
     (Return (Inr 0),
      script0\<lparr>heap := [0 \<mapsto> \<lparr>Url = [], Method = ''METHOD'', calls = []\<rparr>], brk := 1\<rparr>) \<and>
   reqFromArgs host0 script0 [''m=put''] =
     (Return (Inr 0),
      script0\<lparr>heap := [0 \<mapsto> \<lparr>Url = [], Method = ''M'', calls = []\<rparr>], brk := 1\<rparr>) \<and>
   reqFromArgs host0 script0 [''post''] =
     (Return (Inr 0),
      script0\<lparr>heap := [0 \<mapsto> \<lparr>Url = [], Method = ''POST'', calls = []\<rparr>], brk := 1\<rparr>)"
  using applyArgToReq_METHOD[of host0 _ _ "''POST''"] applyArgToReq_M[of host0 _ _ "''put''"]
  by (simp add: reqFromArgs_def newReqFromArgs_def script0_def alloc_def gorequest_New_def
      applyDefaultsToReq_def on_agent_def applyArgToReq_def ToUpper_def ToUpper_char_def)


subsection \<open>C6: issuing a request through a named client\<close>

lemma heap_ok_script0: "heap_ok script0"
  by (simp add: heap_ok_def script0_def)

lemma client_mod_changes_template:
  assumes "httpClients ts name = Some t" and "heap ts t = Some tmpl"
  shows "manageHttpClient h ts [''mod'', name, ''URL='' @ u] =
           (Return (), ts\<lparr>heap := (heap ts)(t \<mapsto> tmpl\<lparr>Url := u\<rparr>),
                           httpClients := (httpClients ts)(name \<mapsto> t)\<rparr>)"
proof -
  have "applyArgToReq h ts t (''URL='' @ u) = on_agent ts t (\<lambda>a. a\<lparr>Url := u\<rparr>)"
    using key_val_split[of "''URL''" u]
    by (simp add: applyArgToReq_def ToUpper_def ToUpper_char_def)
  then show ?thesis using assms by (simp add: manageHttpClient_def on_agent_def)
qed

text \<open>
  Claim C6. When the first argument of \<open>http\<close> names a client of the registry, the
  request is built on a copy of the stored template: after \<open>reqFromArgs\<close>, and after the
  whole of \<open>http\<close> (which also runs the request), the template is what it was, whatever
  the arguments after the name are and whether they are accepted or not, the registry is
  the same, and the request returned is not the template. The hypothesis \<open>heap_ok\<close>
  holds of a script that has made no request (\<open>heap_ok_script0\<close>) and \<open>http\<close> keeps it
  (\<open>http_heap_ok\<close>). By \<open>client_mod_changes_template\<close>, \<open>http client mod\<close> does
  change the template.
\<close>

theorem issuing_leaves_template_unchanged:
  assumes "heap_ok ts" and "httpClients ts name = Some t" and "heap ts t = Some tmpl"
    and "name \<noteq> ''client''"
  shows "heap (snd (reqFromArgs h ts (name # overrides))) t = Some tmpl \<and>
         httpClients (snd (reqFromArgs h ts (name # overrides))) = httpClients ts \<and>
         fst (reqFromArgs h ts (name # overrides)) \<noteq> Return (Inr t) \<and>
         heap (snd (http h ts (name # overrides))) t = Some tmpl \<and>
         httpClients (snd (http h ts (name # overrides))) = httpClients ts"
proof -
  have lt: "t < brk ts" using assms(1,2) by (auto simp: heap_ok_def)
  note r = reqFromArgs_template[OF assms(2,3) lt, of h overrides]
  have "fst (reqFromArgs h ts (name # overrides)) \<noteq> Return (Inr t)"
    using r(3) lt by auto
  with r(1,2) http_template[OF assms(2,3) lt assms(4), of h overrides] show ?thesis by simp
qed

theorem issuing_leaves_template_unchanged_witness:
  "heap (snd (http host0
     (script0\<lparr>httpClients := [''api'' \<mapsto> 0],
              heap := [0 \<mapsto> \<lparr>Url = ''http://x'', Method = ''GET'', calls = []\<rparr>], brk := 1\<rparr>)
     [''api'', ''POST'', ''URL=http://y''])) 0 =
   Some \<lparr>Url = ''http://x'', Method = ''GET'', calls = []\<rparr>"
proof -
  let ?ts = "script0\<lparr>httpClients := [''api'' \<mapsto> 0],
              heap := [0 \<mapsto> \<lparr>Url = ''http://x'', Method = ''GET'', calls = []\<rparr>], brk := 1\<rparr>"
  have 1: "heap_ok ?ts" by (simp add: heap_ok_def)
  have 2: "httpClients ?ts ''api'' = Some 0" by simp
  have 3: "heap ?ts 0 = Some \<lparr>Url = ''http://x'', Method = ''GET'', calls = []\<rparr>" by simp
  have 4: "''api'' \<noteq> ''client''" by simp
  from issuing_leaves_template_unchanged[OF 1 2 3 4, of host0 "[''POST'', ''URL=http://y'']"]
  show ?thesis by simp
qed


subsection \<open>C7: applying the golden-file updates\<close>

text \<open>
  One update is recorded for the file \<open>want\<close> of the archive. Its content holds a
  line that looks like a file marker, so it needs quoting, and has no final newline, so
  it cannot be quoted: \<open>applyScriptUpdates\<close> ends in \<open>t.Fatal\<close>, a test failure, the
  file of the archive keeps its bytes and nothing is written.
\<close>

theorem update_that_cannot_be_quoted:
  "applyScriptUpdates host0
     (script0\<lparr>archive := \<lparr>Comment = [], Files = [\<lparr>Name = ''want'', Data = ''old''\<rparr>]\<rparr>,
              scriptUpdates := [(''want'', ''-- x --'' @ [nl] @ ''tail'')]\<rparr>) =
   (Abort (FailNow (''cannot update script file '' @ [CHR 0x22] @ ''want'' @ [CHR 0x22]
                    @ '': data has no final newline'')),
    script0\<lparr>archive := \<lparr>Comment = [], Files = [\<lparr>Name = ''want'', Data = ''old''\<rparr>]\<rparr>,
             scriptUpdates := [(''want'', ''-- x --'' @ [nl] @ ''tail'')]\<rparr>)"
  by (simp add: applyScriptUpdates_def quoted_data_def host0_def HasPrefix_def script0_def)

text \<open>
  Claim C7, as the code has it. Let every recorded content that needs quoting be one
  that can be quoted (the recorded paths are the keys of a map, so no path is recorded
  twice). If every recorded path is the name of a file of the archive and the script file
  can be written, \<open>applyScriptUpdates\<close> gives every such file the recorded content,
  quoted where needed, leaves the other files alone and writes the formatted archive over
  the script file. If some recorded path is the name of no file of the archive, it ends in
  the panic \<open>script update file not found\<close>, not in a test failure, and writes nothing.
\<close>

theorem golden_updates_are_applied:
  assumes "scriptUpdates ts \<noteq> []" and "distinct (map fst (scriptUpdates ts))"
    and "\<forall>(n, c)\<in>set (scriptUpdates ts). \<exists>d. quoted_data h c = Inr d"
  shows "((\<forall>(n, c)\<in>set (scriptUpdates ts). n \<in> Name ` set (Files (archive ts))) \<and>
          WriteFile_error h (script_file ts) = None \<longrightarrow>
          applyScriptUpdates h ts =
            (Return (),
             ts\<lparr>archive := (archive ts)\<lparr>Files :=
                    map (updated_file h (scriptUpdates ts)) (Files (archive ts))\<rparr>,
                disk := (disk ts)(script_file ts \<mapsto>
                    txtar_Format h ((archive ts)\<lparr>Files :=
                      map (updated_file h (scriptUpdates ts)) (Files (archive ts))\<rparr>))\<rparr>)) \<and>
         ((\<exists>(n, c)\<in>set (scriptUpdates ts). n \<notin> Name ` set (Files (archive ts))) \<longrightarrow>
          fst (applyScriptUpdates h ts) = Abort (Panic ''script update file not found'') \<and>
          disk (snd (applyScriptUpdates h ts)) = disk ts)"
  using applyScriptUpdates_ok[OF assms] applyScriptUpdates_missing[OF assms(3)] by blast

theorem golden_updates_are_applied_witness:
  "applyScriptUpdates host0
     (script0\<lparr>archive := \<lparr>Comment = ''exec a'' @ [nl],
                           Files = [\<lparr>Name = ''want'', Data = ''old''\<rparr>,
                                    \<lparr>Name = ''other'', Data = ''x''\<rparr>]\<rparr>,
              scriptUpdates := [(''want'', ''-- new --'' @ [nl])]\<rparr>) =
   (Return (),
    script0\<lparr>archive := \<lparr>Comment = ''exec a'' @ [nl],
                          Files = [\<lparr>Name = ''want'', Data = ''>-- new --'' @ [nl]\<rparr>,
                                   \<lparr>Name = ''other'', Data = ''x''\<rparr>]\<rparr>,
             scriptUpdates := [(''want'', ''-- new --'' @ [nl])],
             disk := [''t.hls'' \<mapsto> ''exec a'' @ [nl] @ ''-- want --'' @ [nl] @ ''>-- new --'' @ [nl]
                                    @ ''-- other --'' @ [nl] @ ''x'']\<rparr>) \<and>
   fst (applyScriptUpdates host0
     (script0\<lparr>archive := \<lparr>Comment = [], Files = [\<lparr>Name = ''want'', Data = ''old''\<rparr>]\<rparr>,
              scriptUpdates := [(''want'', ''new''), (''lost'', ''new'')]\<rparr>)) =
   Abort (Panic ''script update file not found'')"
proof -
  let ?t1 = "script0\<lparr>archive := \<lparr>Comment = ''exec a'' @ [nl],
                           Files = [\<lparr>Name = ''want'', Data = ''old''\<rparr>,
                                    \<lparr>Name = ''other'', Data = ''x''\<rparr>]\<rparr>,
              scriptUpdates := [(''want'', ''-- new --'' @ [nl])]\<rparr>"
  let ?t2 = "script0\<lparr>archive := \<lparr>Comment = [], Files = [\<lparr>Name = ''want'', Data = ''old''\<rparr>]\<rparr>,
              scriptUpdates := [(''want'', ''new''), (''lost'', ''new'')]\<rparr>"
  have q1: "quoted_data host0 (''-- new --'' @ [nl]) = Inr (''>-- new --'' @ [nl])"
    by (simp add: quoted_data_def host0_def HasPrefix_def)
  have q2: "quoted_data host0 ''new'' = Inr ''new''"
    by (simp add: quoted_data_def host0_def HasPrefix_def)
  have a1: "scriptUpdates ?t1 \<noteq> []" "distinct (map fst (scriptUpdates ?t1))"
    "\<forall>(n, c)\<in>set (scriptUpdates ?t1). \<exists>d. quoted_data host0 c = Inr d"
    using q1 by simp_all
  have b1: "(\<forall>(n, c)\<in>set (scriptUpdates ?t1). n \<in> Name ` set (Files (archive ?t1))) \<and>
            WriteFile_error host0 (script_file ?t1) = None"
    by (simp add: host0_def)
  have a2: "scriptUpdates ?t2 \<noteq> []" "distinct (map fst (scriptUpdates ?t2))"
    "\<forall>(n, c)\<in>set (scriptUpdates ?t2). \<exists>d. quoted_data host0 c = Inr d"
    using q2 by simp_all
  have b2: "\<exists>(n, c)\<in>set (scriptUpdates ?t2). n \<notin> Name ` set (Files (archive ?t2))"
    by simp
  have f: "txtar_Format host0 a = Comment a @
             concat (map (\<lambda>f. ''-- '' @ Name f @ '' --'' @ [nl] @ Data f) (Files a))" for a
    by (simp add: host0_def)
  from golden_updates_are_applied[OF a1] b1 q1
  have 1: "applyScriptUpdates host0 ?t1 =
   (Return (),
    script0\<lparr>archive := \<lparr>Comment = ''exec a'' @ [nl],
                          Files = [\<lparr>Name = ''want'', Data = ''>-- new --'' @ [nl]\<rparr>,
                                   \<lparr>Name = ''other'', Data = ''x''\<rparr>]\<rparr>,
             scriptUpdates := [(''want'', ''-- new --'' @ [nl])],
             disk := [''t.hls'' \<mapsto> ''exec a'' @ [nl] @ ''-- want --'' @ [nl] @ ''>-- new --'' @ [nl]
                                    @ ''-- other --'' @ [nl] @ ''x'']\<rparr>)"
    by (simp add: updated_file_def f script0_def)
  from golden_updates_are_applied[OF a2] b2
  have 2: "fst (applyScriptUpdates host0 ?t2) = Abort (Panic ''script update file not found'')"
    by blast
  from 1 2 show ?thesis by simp
qed


subsection \<open>C8: the background list after a wait and at the end of a run\<close>












subsection \<open>C9: an unterminated quoted span is fatal\<close>

text \<open>
  Claim C9. When the loop of \<open>run\<close> comes to a command line (one that starts with neither
  the phase nor the comment prefix) with an unterminated single-quoted span, \<open>parse\<close>
  ends the test with \<open>Fatalf\<close>: the loop stops there with that failure, the script state
  is what it was but for the line counter and the current line, so no command of the line
  has run, and the rest of the script plays no part; the run as a whole has the same
  failure as the outcome of its body.
\<close>

theorem unterminated_quote_is_fatal:
  assumes "script \<noteq> []"
    and "\<not> HasPrefix (fst (next_line script)) (PhasePrefix p)"
    and "\<not> HasPrefix (fst (next_line script)) (CommentPrefix p)"
    and "unterminated (fst (next_line script))"
  shows "fst (parse h ts (fst (next_line script))) = Abort (FailNow ''unterminated quoted argument'') \<and>
         run_loop h p sc script ts =
           (Abort (FailNow ''unterminated quoted argument''),
            ts\<lparr>lineno := Suc (lineno ts), line := fst (next_line script)\<rparr>) \<and>
         fst (fst (run h p sc deferred script ts)) = Abort (FailNow ''unterminated quoted argument'')"
proof -
  have 1: "fst (parse h ts (fst (next_line script))) = Abort (FailNow ''unterminated quoted argument'')"
    using assms(4) by (simp add: parse_unterminated)
  have 2: "run_loop h p sc script ts =
           (Abort (FailNow ''unterminated quoted argument''),
            ts\<lparr>lineno := Suc (lineno ts), line := fst (next_line script)\<rparr>)"
    using assms by (rule run_loop_unterminated)
  have 3: "fst (fst (run h p sc deferred script ts)) = Abort (FailNow ''unterminated quoted argument'')"
    by (simp add: run_def run_stages_def 2 split: prod.splits)
  from 1 2 3 show ?thesis by simp
qed

theorem unterminated_quote_is_fatal_witness:
  "run_loop host0 params0 cmds0 (''exec '' @ [sq] @ ''unterminated'' @ [nl] @ ''exec more'') script0 =
     (Abort (FailNow ''unterminated quoted argument''),
      script0\<lparr>lineno := 1, line := ''exec '' @ [sq] @ ''unterminated''\<rparr>)"
proof -
  let ?s = "''exec '' @ [sq] @ ''unterminated'' @ [nl] @ ''exec more''"
  have n: "fst (next_line ?s) = ''exec '' @ [sq] @ ''unterminated''"
    by (simp add: next_line_def)
  have a: "?s \<noteq> []" by simp
  have b: "\<not> HasPrefix (fst (next_line ?s)) (PhasePrefix params0)"
    unfolding n by (simp add: HasPrefix_def params0_def paramDefaults_def)
  have c: "\<not> HasPrefix (fst (next_line ?s)) (CommentPrefix params0)"
    unfolding n by (simp add: HasPrefix_def params0_def paramDefaults_def)
  have d: "unterminated (fst (next_line ?s))"
    unfolding n by (simp add: unterminated_def)
  from unterminated_quote_is_fatal[OF a b c d, of host0 script0 cmds0] n
  show ?thesis by (simp add: script0_def)
qed

lemma parse_aborts_iff_unterminated:
  "fst (parse h ts ln) = Abort (FailNow ''unterminated quoted argument'') \<longleftrightarrow> unterminated ln"
proof (cases "unterminated ln")
  case True
  then show ?thesis by (simp add: parse_unterminated)
next
  case False
  then obtain r where "parse h ts ln = (Return r, ts\<lparr>line := ln\<rparr>)"
    using parse_terminated by blast
  with False show ?thesis by simp
qed


subsection \<open>C10: the newline after the response body\<close>

text \<open>
  Claim C10. For a request that is issued and answered (\<open>http\<close> with a first argument
  other than \<open>client\<close>), the body that \<open>http\<close> classifies is the body of the response
  followed by one newline: it is the output of a success, and the error output and the
  body inside the message of each of the three failures.
\<close>

theorem response_body_gets_one_newline:
  assumes "args \<noteq> []" and "hd args \<noteq> ''client''"
    and "reqFromArgs h ts args = (Return (Inr req), ts')"
    and "heap ts' req = Some a"
    and "req_End h a = ((Some r, raw, errs), a')"
  shows "fst (http h ts args) =
          (if errs \<noteq> [] \<and> \<not> Contains (hd errs) HTTP2_GOAWAY_CHECK then
             Return ([], raw @ [nl], StatusCode r,
                     Some (''Internal Weirdr Error:'' @ [CHR 0x08] @ fmt_errs errs @ [nl]
                           @ (raw @ [nl]) @ [nl]))
           else if errs \<noteq> [] \<or> StatusCode r \<ge> 500 then
             Return ([], raw @ [nl], StatusCode r,
                     Some (''Internal Error:'' @ [nl] @ fmt_errs errs @ [nl] @ (raw @ [nl]) @ [nl]))
           else if StatusCode r \<ge> 400 then
             Return ([], raw @ [nl], StatusCode r,
                     Some (''Bad Request:'' @ [nl] @ (raw @ [nl]) @ [nl]))
           else Return (raw @ [nl], [], StatusCode r, None))"
  by (simp add: http_issue[OF assms] http_classify_def)

theorem response_body_gets_one_newline_witness:
  "fst (http host0 script0 [''http://example.com'']) = Return (''ok'' @ [nl], [], 200, None)"
proof -
  let ?a = "\<lparr>Url = ''http://example.com'', Method = ''GET'', calls = []\<rparr>"
  have 1: "[''http://example.com''] \<noteq> []" "hd [''http://example.com''] \<noteq> ''client''" by simp_all
  have 2: "heap (script0\<lparr>heap := [0 \<mapsto> ?a], brk := 1\<rparr>) 0 = Some ?a" by simp
  have 3: "req_End host0 ?a = ((Some \<lparr>StatusCode = 200\<rparr>, ''ok'', []), ?a)"
    by (simp add: host0_def)
  from response_body_gets_one_newline[OF 1 reqFromArgs_new_url 2 3]
  show ?thesis by simp
qed

end
